theory Spec2Isabelle
  imports Main "HOL-Library.Word" "HOL-Library.Char_ord" "HOL-Library.List_Lexorder"
    "HOL-Library.Multiset" "HOL-Library.AList"
begin

section \<open>Strings (Go package strings)\<close>

text \<open>
  A Go string is a sequence of bytes; so is an Isabelle \<open>string\<close>. The source calls
  \<open>strings.ReplaceAll\<close> only with one-byte patterns, \<open>strings.TrimPrefix\<close>,
  \<open>strings.TrimSuffix\<close> and \<open>strings.SplitN(_, "/", 2)\<close>.
\<close>

definition ReplaceAll :: "string \<Rightarrow> char \<Rightarrow> char \<Rightarrow> string" where
  "ReplaceAll s old new = map (\<lambda>c. if c = old then new else c) s"

definition TrimPrefix :: "string \<Rightarrow> string \<Rightarrow> string" where
  "TrimPrefix s p = (if take (length p) s = p then drop (length p) s else s)"

definition TrimSuffix :: "string \<Rightarrow> string \<Rightarrow> string" where
  "TrimSuffix s p =
     (if length p \<le> length s \<and> drop (length s - length p) s = p
      then take (length s - length p) s else s)"

section \<open>Registry (internal/config/config.go)\<close>

record Domain =
  FolderName :: string
  DisplayName :: string
  DomainFQDN :: string

record Category =
  CategoryFolderName :: string
  CategoryDisplayName :: string

text \<open>
  The five Go maps of \<open>ConfigManager\<close>. The mutex is not modelled: every operation
  holds it from entry to return, so operations are atomic steps on this state.
\<close>

record ConfigManager =
  domains :: "string \<rightharpoonup> string"
  domainDisplayNames :: "string \<rightharpoonup> string"
  domainFQDNs :: "string \<rightharpoonup> string"
  categories :: "string \<rightharpoonup> string"
  categoryDisplayNames :: "string \<rightharpoonup> string"

text \<open>
  The error numbers of the operating system that the storage code can meet.
  \<open>os.IsNotExist\<close> holds of \<open>ENOENT\<close> only.
\<close>

datatype errno = ENOENT | ENOTDIR | EISDIR | EINVAL | ENAMETOOLONG

text \<open>
  Go errors are values built by \<open>fmt.Errorf\<close>; the model keeps the kind of each error
  and the name or the cause it mentions. \<open>AlreadyExists n\<close> stands for
  "... with folder-name 'n' already exists", \<open>NotFound n\<close> for "... 'n' not found",
  \<open>ReadError\<close> and \<open>ParseError\<close> for the two failures of loading a catalog file, and
  the last four for "failed to create directory", "failed to write file", "failed to
  read file" and "failed to read directory", each wrapping the error of the operating
  system.
\<close>

datatype error =
    AlreadyExists string
  | NotFound string
  | ReadError
  | ParseError
  | FailedCreateDirectory errno
  | FailedWriteFile errno
  | FailedReadFile errno
  | FailedReadDirectory errno

definition NewConfigManager :: ConfigManager where
  "NewConfigManager =
     \<lparr>domains = Map.empty, domainDisplayNames = Map.empty, domainFQDNs = Map.empty,
      categories = Map.empty, categoryDisplayNames = Map.empty\<rparr>"

text \<open>
  Reading a Go map at a missing key gives the zero value, the empty string.
\<close>

definition index :: "(string \<rightharpoonup> string) \<Rightarrow> string \<Rightarrow> string" where
  "index m k = (case m k of None \<Rightarrow> [] | Some v \<Rightarrow> v)"

text \<open>The body of the loop of \<open>LoadDomains\<close>, for one record of the file.\<close>

definition load_domain :: "ConfigManager \<Rightarrow> Domain \<Rightarrow> ConfigManager" where
  "load_domain cm d =
     (let normalizedFolderName = ReplaceAll (FolderName d) CHR '' '' CHR ''-''
      in cm\<lparr>domains := (domains cm)(normalizedFolderName \<mapsto> ''exists''),
            domainDisplayNames := (domainDisplayNames cm)(normalizedFolderName \<mapsto> DisplayName d),
            domainFQDNs := (domainFQDNs cm)(normalizedFolderName \<mapsto> DomainFQDN d)\<rparr>)"

text \<open>
  \<open>LoadDomains\<close> reads and parses a file; the model takes the outcome of
  \<open>os.ReadFile\<close> followed by \<open>json.Unmarshal\<close>: an error, or the records of the file
  in order. It returns the error (\<open>None\<close> is Go's \<open>nil\<close>) and the state afterwards.
\<close>

definition LoadDomains :: "ConfigManager \<Rightarrow> error + Domain list \<Rightarrow> error option \<times> ConfigManager" where
  "LoadDomains cm file =
     (case file of
        Inl e \<Rightarrow> (Some e, cm)
      | Inr ds \<Rightarrow>
          (None, foldl load_domain
             (cm\<lparr>domains := Map.empty, domainDisplayNames := Map.empty,
                  domainFQDNs := Map.empty\<rparr>) ds))"

definition load_category :: "ConfigManager \<Rightarrow> Category \<Rightarrow> ConfigManager" where
  "load_category cm c =
     (let normalizedFolderName = ReplaceAll (CategoryFolderName c) CHR '' '' CHR ''-''
      in cm\<lparr>categories := (categories cm)(normalizedFolderName \<mapsto> ''exists''),
            categoryDisplayNames :=
              (categoryDisplayNames cm)(normalizedFolderName \<mapsto> CategoryDisplayName c)\<rparr>)"

definition LoadCategories ::
  "ConfigManager \<Rightarrow> error + Category list \<Rightarrow> error option \<times> ConfigManager" where
  "LoadCategories cm file =
     (case file of
        Inl e \<Rightarrow> (Some e, cm)
      | Inr cs \<Rightarrow>
          (None, foldl load_category
             (cm\<lparr>categories := Map.empty, categoryDisplayNames := Map.empty\<rparr>) cs))"

definition GetCategoryID :: "ConfigManager \<Rightarrow> string \<Rightarrow> string \<times> bool" where
  "GetCategoryID cm name = (name, categories cm name \<noteq> None)"

definition DomainExists :: "ConfigManager \<Rightarrow> string \<Rightarrow> bool" where
  "DomainExists cm folderName = (domains cm folderName \<noteq> None)"

definition GetDomainName :: "ConfigManager \<Rightarrow> string \<Rightarrow> string \<times> bool" where
  "GetDomainName cm folderName =
     (case domainDisplayNames cm folderName of
        None \<Rightarrow> (folderName, False)
      | Some displayName \<Rightarrow> (displayName, True))"

definition GetDomainFQDN :: "ConfigManager \<Rightarrow> string \<Rightarrow> string \<times> bool" where
  "GetDomainFQDN cm folderName =
     (case domainFQDNs cm folderName of
        None \<Rightarrow> ([], False)
      | Some url \<Rightarrow> (url, True))"

definition GetCategoryDisplayName :: "ConfigManager \<Rightarrow> string \<Rightarrow> string \<times> bool" where
  "GetCategoryDisplayName cm folderName =
     (case categoryDisplayNames cm folderName of
        None \<Rightarrow> (folderName, False)
      | Some displayName \<Rightarrow> (displayName, True))"

text \<open>
  \<open>GetDomainByFQDN\<close> ranges over the map \<open>domainFQDNs\<close>. Go leaves the order of a
  range over a map unspecified, so the order of the keys is an argument of the model:
  \<open>range_order m ks\<close> says that \<open>ks\<close> visits every key of \<open>m\<close> once.
\<close>

definition range_order :: "(string \<rightharpoonup> string) \<Rightarrow> string list \<Rightarrow> bool" where
  "range_order m ks = (distinct ks \<and> set ks = dom m)"

fun GetDomainByFQDN :: "ConfigManager \<Rightarrow> string list \<Rightarrow> string \<Rightarrow> string \<times> string \<times> bool" where
  "GetDomainByFQDN cm [] fqdn = ([], [], False)"
| "GetDomainByFQDN cm (folder # rest) fqdn =
     (if domainFQDNs cm folder = Some fqdn
      then (folder, index (domainDisplayNames cm) folder, True)
      else GetDomainByFQDN cm rest fqdn)"

definition stripProtocol :: "string \<Rightarrow> string" where
  "stripProtocol fqdn =
     TrimSuffix (TrimPrefix (TrimPrefix (TrimPrefix fqdn ''https://'') ''http://'') ''ftp://'')
       ''/''"

definition AddDomain ::
  "ConfigManager \<Rightarrow> string \<Rightarrow> string \<Rightarrow> string \<Rightarrow> error option \<times> ConfigManager" where
  "AddDomain cm folderName displayName domainFQDN =
     (let normalizedFolderName = ReplaceAll folderName CHR '' '' CHR ''-'';
          cleanFQDN = stripProtocol domainFQDN
      in if domains cm normalizedFolderName \<noteq> None
         then (Some (AlreadyExists normalizedFolderName), cm)
         else (None,
               cm\<lparr>domains := (domains cm)(normalizedFolderName \<mapsto> ''exists''),
                   domainDisplayNames := (domainDisplayNames cm)(normalizedFolderName \<mapsto> displayName),
                   domainFQDNs := (domainFQDNs cm)(normalizedFolderName \<mapsto> cleanFQDN)\<rparr>))"

definition RemoveDomain :: "ConfigManager \<Rightarrow> string \<Rightarrow> error option \<times> ConfigManager" where
  "RemoveDomain cm folderName =
     (if domains cm folderName = None
      then (Some (NotFound folderName), cm)
      else (None,
            cm\<lparr>domains := (domains cm)(folderName := None),
                domainDisplayNames := (domainDisplayNames cm)(folderName := None),
                domainFQDNs := (domainFQDNs cm)(folderName := None)\<rparr>))"

definition AddCategory :: "ConfigManager \<Rightarrow> string \<Rightarrow> string \<Rightarrow> error option \<times> ConfigManager" where
  "AddCategory cm folderName displayName =
     (let normalizedFolderName = ReplaceAll folderName CHR '' '' CHR ''-''
      in if categories cm normalizedFolderName \<noteq> None
         then (Some (AlreadyExists normalizedFolderName), cm)
         else (None,
               cm\<lparr>categories := (categories cm)(normalizedFolderName \<mapsto> ''exists''),
                   categoryDisplayNames :=
                     (categoryDisplayNames cm)(normalizedFolderName \<mapsto> displayName)\<rparr>))"

definition RemoveCategory :: "ConfigManager \<Rightarrow> string \<Rightarrow> error option \<times> ConfigManager" where
  "RemoveCategory cm folderName =
     (if categories cm folderName = None
      then (Some (NotFound folderName), cm)
      else (None,
            cm\<lparr>categories := (categories cm)(folderName := None),
                categoryDisplayNames := (categoryDisplayNames cm)(folderName := None)\<rparr>))"

subsection \<open>Sequences of Registry operations\<close>

text \<open>
  The mutating operations of the Registry, as a caller issues them one after the other
  on a registry that starts as \<open>NewConfigManager\<close>. A failed operation leaves the state
  it returns (the one it was called on) and the sequence goes on.
\<close>

datatype registry_op =
    OpLoadDomains "error + Domain list"
  | OpLoadCategories "error + Category list"
  | OpAddDomain string string string
  | OpRemoveDomain string
  | OpAddCategory string string
  | OpRemoveCategory string

fun apply_op :: "ConfigManager \<Rightarrow> registry_op \<Rightarrow> ConfigManager" where
  "apply_op cm (OpLoadDomains file) = snd (LoadDomains cm file)"
| "apply_op cm (OpLoadCategories file) = snd (LoadCategories cm file)"
| "apply_op cm (OpAddDomain f d h) = snd (AddDomain cm f d h)"
| "apply_op cm (OpRemoveDomain f) = snd (RemoveDomain cm f)"
| "apply_op cm (OpAddCategory f d) = snd (AddCategory cm f d)"
| "apply_op cm (OpRemoveCategory f) = snd (RemoveCategory cm f)"

definition run_ops :: "registry_op list \<Rightarrow> ConfigManager" where
  "run_ops ops = foldl apply_op NewConfigManager ops"

subsection \<open>Invariants of the Registry\<close>

text \<open>
  The three domain maps have one key set and the two category maps have one key set.
\<close>

definition consistent :: "ConfigManager \<Rightarrow> bool" where
  "consistent cm =
     (dom (domainDisplayNames cm) = dom (domains cm) \<and>
      dom (domainFQDNs cm) = dom (domains cm) \<and>
      dom (categoryDisplayNames cm) = dom (categories cm))"

text \<open>No registered folder name holds the space character.\<close>

definition no_space_keys :: "ConfigManager \<Rightarrow> bool" where
  "no_space_keys cm =
     (\<forall>k. (domains cm k \<noteq> None \<or> categories cm k \<noteq> None) \<longrightarrow> CHR '' '' \<notin> set k)"

section \<open>Paths (Go package path/filepath, on Unix)\<close>

text \<open>
  \<open>split_sep s\<close> is \<open>strings.Split(s, "/")\<close> and \<open>join_sep\<close> is
  \<open>strings.Join(_, "/")\<close>.
\<close>

fun split_sep :: "string \<Rightarrow> string list" where
  "split_sep [] = [[]]"
| "split_sep (c # cs) =
     (if c = CHR ''/'' then [] # split_sep cs
      else (case split_sep cs of [] \<Rightarrow> [[c]] | w # ws \<Rightarrow> (c # w) # ws))"

fun join_sep :: "string list \<Rightarrow> string" where
  "join_sep [] = []"
| "join_sep [e] = e"
| "join_sep (e # es) = e @ CHR ''/'' # join_sep es"

text \<open>
  \<open>filepath.Clean\<close> works through the elements of the path from left to right and
  keeps the elements of the result so far; here the last element kept is the head of
  \<open>out\<close>. An empty element and \<open>.\<close> are dropped; \<open>..\<close> removes the element before it,
  unless there is none to remove: then it is dropped in a rooted path and kept in a
  relative one.
\<close>

definition clean_elem :: "bool \<Rightarrow> string list \<Rightarrow> string \<Rightarrow> string list" where
  "clean_elem rooted out e =
     (if e = [] \<or> e = ''.'' then out
      else if e = ''..'' then
        (case out of
           [] \<Rightarrow> (if rooted then [] else [''..''])
         | t # r \<Rightarrow> (if \<not> rooted \<and> t = ''..'' then ''..'' # out else r))
      else e # out)"

definition render :: "bool \<Rightarrow> string list \<Rightarrow> string" where
  "render rooted out =
     (if rooted then CHR ''/'' # join_sep (rev out)
      else if out = [] then ''.'' else join_sep (rev out))"

definition Clean :: "string \<Rightarrow> string" where
  "Clean path =
     (if path = [] then ''.''
      else render (hd path = CHR ''/'')
             (foldl (clean_elem (hd path = CHR ''/'')) [] (split_sep path)))"

text \<open>
  \<open>filepath.Join\<close> ignores leading empty elements, joins the rest with the separator
  and cleans the result; with no element left it returns the empty string.
\<close>

definition Join :: "string list \<Rightarrow> string" where
  "Join elem =
     (case dropWhile (\<lambda>e. e = []) elem of
        [] \<Rightarrow> []
      | e # es \<Rightarrow> Clean (join_sep (e # es)))"

text \<open>
  \<open>filepath.Ext\<close>: the suffix that begins at the last dot of the last element of the
  path, empty when that element has no dot.
\<close>

definition Ext :: "string \<Rightarrow> string" where
  "Ext path =
     (let final = takeWhile (\<lambda>c. c \<noteq> CHR ''/'') (rev path)
      in if CHR ''.'' \<in> set final
         then CHR ''.'' # rev (takeWhile (\<lambda>c. c \<noteq> CHR ''.'') final)
         else [])"

subsection \<open>The state of \<open>Clean\<close>\<close>

text \<open>
  \<open>clean_state path\<close> is the list of elements that \<open>Clean\<close> has kept at the end of the
  path. Such a list is \<open>valid_out\<close>: its elements are not empty, not \<open>.\<close>, and have no
  separator, and \<open>..\<close> occurs only in a relative path, below every other element.
\<close>

definition clean_state :: "string \<Rightarrow> string list" where
  "clean_state path = foldl (clean_elem (hd path = CHR ''/'')) [] (split_sep path)"

fun valid_out :: "bool \<Rightarrow> string list \<Rightarrow> bool" where
  "valid_out rooted [] = True"
| "valid_out rooted (t # out) =
     (t \<noteq> [] \<and> t \<noteq> ''.'' \<and> CHR ''/'' \<notin> set t
      \<and> (t = ''..'' \<longrightarrow> \<not> rooted \<and> (\<forall>u\<in>set out. u = ''..''))
      \<and> valid_out rooted out)"

section \<open>The file system (Go package os)\<close>

text \<open>
  The file system is a tree: a regular file holds bytes, a directory holds named
  entries in the order the file system keeps them. There are no symbolic links and no
  permissions, and no operation fails for lack of space. The process has a working
  directory, given by the names on the way from the root.
\<close>

type_synonym byte = "8 word"

datatype node = File "byte list" | Dir "(string \<times> node) list"

record disk =
  root :: node
  cwd :: "string list"

fun IsDir :: "node \<Rightarrow> bool" where
  "IsDir (Dir es) = True"
| "IsDir (File b) = False"

text \<open>
  The operating system resolves a path name element by element, from the root for a
  rooted path and from the working directory otherwise. The paths that reach it from
  this program are results of \<open>filepath.Join\<close>, where \<open>..\<close> can only stand at the front
  of a relative path.
\<close>

definition resolve_elem :: "string list \<Rightarrow> string \<Rightarrow> string list" where
  "resolve_elem cur e =
     (if e = [] \<or> e = ''.'' then cur
      else if e = ''..'' then butlast cur
      else cur @ [e])"

definition resolve :: "string list \<Rightarrow> string \<Rightarrow> string list" where
  "resolve wd path =
     foldl resolve_elem (if hd path = CHR ''/'' then [] else wd) (split_sep path)"

text \<open>
  Names and paths that the system refuses (Linux): a path with a NUL byte is refused
  by Go before the system call (\<open>EINVAL\<close>), the empty path names nothing (\<open>ENOENT\<close>), a
  path of 4096 bytes or more and a name of more than 255 bytes are too long
  (\<open>ENAMETOOLONG\<close>); the latter is found when the name is looked up in a directory.
\<close>

definition path_error :: "string \<Rightarrow> errno option" where
  "path_error path =
     (if path = [] then Some ENOENT
      else if CHR 0x00 \<in> set path then Some EINVAL
      else if 4096 \<le> length path then Some ENAMETOOLONG
      else None)"

definition name_error :: "string \<Rightarrow> errno option" where
  "name_error c =
     (if CHR 0x00 \<in> set c then Some EINVAL
      else if 255 < length c then Some ENAMETOOLONG
      else None)"

fun lookup :: "node \<Rightarrow> string list \<Rightarrow> errno + node" where
  "lookup n [] = Inr n"
| "lookup (File b) (c # cs) = Inl ENOTDIR"
| "lookup (Dir es) (c # cs) =
     (case name_error c of
        Some e \<Rightarrow> Inl e
      | None \<Rightarrow> (case map_of es c of None \<Rightarrow> Inl ENOENT | Some n \<Rightarrow> lookup n cs))"

text \<open>
  Writing a file creates it in an existing directory or replaces the bytes of an
  existing regular file (\<open>O_CREATE|O_TRUNC\<close>).
\<close>

fun write_at :: "node \<Rightarrow> string list \<Rightarrow> byte list \<Rightarrow> errno + node" where
  "write_at (File old) [] b = Inr (File b)"
| "write_at (Dir es) [] b = Inl EISDIR"
| "write_at (File old) (c # cs) b = Inl ENOTDIR"
| "write_at (Dir es) (c # cs) b =
     (case name_error c of
        Some e \<Rightarrow> Inl e
      | None \<Rightarrow>
          (case map_of es c of
             None \<Rightarrow> (if cs = [] then Inr (Dir (es @ [(c, File b)])) else Inl ENOENT)
           | Some n \<Rightarrow>
               (case write_at n cs b of
                  Inl e \<Rightarrow> Inl e
                | Inr n' \<Rightarrow> Inr (Dir (AList.update c n' es)))))"

text \<open>
  \<open>os.MkdirAll\<close> creates the directory and the missing directories on the way to it,
  from the top down; it succeeds when the directory is there already and fails when a
  regular file stands on the way or in its place, or at a name that the system
  refuses. The directories made before a failure stay, so the result is the error
  (\<open>None\<close> for success) and the tree after the call.
\<close>

fun mkdir_all :: "node \<Rightarrow> string list \<Rightarrow> errno option \<times> node" where
  "mkdir_all (Dir es) [] = (None, Dir es)"
| "mkdir_all (File b) cs = (Some ENOTDIR, File b)"
| "mkdir_all (Dir es) (c # cs) =
     (case name_error c of
        Some e \<Rightarrow> (Some e, Dir es)
      | None \<Rightarrow>
          (case map_of es c of
             None \<Rightarrow>
               (case mkdir_all (Dir []) cs of (e, n') \<Rightarrow> (e, Dir (es @ [(c, n')])))
           | Some n \<Rightarrow>
               (case mkdir_all n cs of (e, n') \<Rightarrow> (e, Dir (AList.update c n' es)))))"

text \<open>
  What the system finds at a path: the error of the path or of the walk, or the node.
\<close>

definition stat_path :: "disk \<Rightarrow> string \<Rightarrow> errno + node" where
  "stat_path d path =
     (case path_error path of
        Some e \<Rightarrow> Inl e
      | None \<Rightarrow> lookup (root d) (resolve (cwd d) path))"

text \<open>
  The calls of package \<open>os\<close> that the storage makes. Each takes the path as a string.
  A call that changes the file system returns the error (\<open>None\<close> is \<open>nil\<close>) and the
  file system after the call.
\<close>

definition os_MkdirAll :: "disk \<Rightarrow> string \<Rightarrow> errno option \<times> disk" where
  "os_MkdirAll d path =
     (case path_error path of
        Some e \<Rightarrow> (Some e, d)
      | None \<Rightarrow>
          (case mkdir_all (root d) (resolve (cwd d) path) of
             (e, r) \<Rightarrow> (e, d\<lparr>root := r\<rparr>)))"

definition os_WriteFile :: "disk \<Rightarrow> string \<Rightarrow> byte list \<Rightarrow> errno option \<times> disk" where
  "os_WriteFile d path b =
     (case path_error path of
        Some e \<Rightarrow> (Some e, d)
      | None \<Rightarrow>
          (case write_at (root d) (resolve (cwd d) path) b of
             Inl e \<Rightarrow> (Some e, d)
           | Inr r \<Rightarrow> (None, d\<lparr>root := r\<rparr>)))"

definition os_ReadFile :: "disk \<Rightarrow> string \<Rightarrow> errno + byte list" where
  "os_ReadFile d path =
     (case stat_path d path of
        Inl e \<Rightarrow> Inl e
      | Inr (File b) \<Rightarrow> Inr b
      | Inr (Dir es) \<Rightarrow> Inl EISDIR)"

text \<open>\<open>os.ReadDir\<close> returns the entries of the directory sorted by file name.\<close>

definition os_ReadDir :: "disk \<Rightarrow> string \<Rightarrow> errno + (string \<times> node) list" where
  "os_ReadDir d path =
     (case stat_path d path of
        Inl e \<Rightarrow> Inl e
      | Inr (File b) \<Rightarrow> Inl ENOTDIR
      | Inr (Dir es) \<Rightarrow> Inr (sort_key fst es))"

section \<open>Blob store (package storage)\<close>

text \<open>
  Functions of the Go library that the storage and the handler call and that are not
  modelled further: \<open>sha256.Sum256\<close>, \<open>mime.TypeByExtension\<close> and
  \<open>http.DetectContentType\<close>. They are arguments of the model.
\<close>

record stdlib =
  Sum256 :: "byte list \<Rightarrow> byte list"
  TypeByExtension :: "string \<Rightarrow> string"
  DetectContentType :: "byte list \<Rightarrow> string"

record Storage =
  basePath :: string

text \<open>
  \<open>StoreFile\<close>. The argument \<open>uuid\<close> is the string of the random UUID that
  \<open>uuid.New\<close> draws (the variable \<open>id\<close> of the source). The result is the file name and the size, or the error, together
  with the file system after the call.
\<close>

definition StoreFile ::
  "Storage \<Rightarrow> disk \<Rightarrow> string \<Rightarrow> string \<Rightarrow> string \<Rightarrow> byte list \<Rightarrow> string \<Rightarrow> string
     \<Rightarrow> (error + string \<times> nat) \<times> disk" where
  "StoreFile s d uuid domainFolder category data contentType ext =
     (let filename = uuid @ ext;
          dirPath = Join [basePath s, domainFolder, category]
      in case os_MkdirAll d dirPath of
           (Some e, d1) \<Rightarrow> (Inl (FailedCreateDirectory e), d1)
         | (None, d1) \<Rightarrow>
             (let filePath = Join [dirPath, filename]
              in case os_WriteFile d1 filePath data of
                   (Some e, d2) \<Rightarrow> (Inl (FailedWriteFile e), d2)
                 | (None, d2) \<Rightarrow> (Inr (filename, length data), d2)))"

text \<open>
  \<open>GetFile\<close> returns the bytes and the content type, \<open>None\<close> for Go's
  \<open>nil, "", nil\<close> when the file does not exist, or the error.
\<close>

definition GetFile ::
  "stdlib \<Rightarrow> Storage \<Rightarrow> disk \<Rightarrow> string \<Rightarrow> string \<Rightarrow> string
     \<Rightarrow> error + (byte list \<times> string) option" where
  "GetFile lib s d domainFolder category filename =
     (let filePath = Join [basePath s, domainFolder, category, filename]
      in case os_ReadFile d filePath of
           Inl e \<Rightarrow> (if e = ENOENT then Inr None else Inl (FailedReadFile e))
         | Inr data \<Rightarrow>
             (let contentType = TypeByExtension lib (Ext filename)
              in Inr (Some (data,
                   if contentType = [] then DetectContentType lib data else contentType))))"

definition ListFiles :: "Storage \<Rightarrow> disk \<Rightarrow> string \<Rightarrow> string \<Rightarrow> error + string list" where
  "ListFiles s d domainFolder category =
     (let dirPath = Join [basePath s, domainFolder, category]
      in case os_ReadDir d dirPath of
           Inl e \<Rightarrow> (if e = ENOENT then Inr [] else Inl (FailedReadDirectory e))
         | Inr entries \<Rightarrow>
             Inr (sort (map fst (filter (\<lambda>entry. \<not> IsDir (snd entry)) entries))))"

text \<open>The names of the entries of a directory that are not directories.\<close>

definition file_names :: "(string \<times> node) list \<Rightarrow> string list" where
  "file_names es = map fst (filter (\<lambda>entry. \<not> IsDir (snd entry)) es)"

text \<open>\<open>hex.EncodeToString\<close>: two lower-case hexadecimal digits for each byte.\<close>

definition hexdigit :: "nat \<Rightarrow> char" where
  "hexdigit n = ''0123456789abcdef'' ! n"

definition EncodeToString :: "byte list \<Rightarrow> string" where
  "EncodeToString bs =
     concat (map (\<lambda>b. [hexdigit (unat b div 16), hexdigit (unat b mod 16)]) bs)"

definition GenerateETag :: "stdlib \<Rightarrow> byte list \<Rightarrow> string" where
  "GenerateETag lib data =
     (let hash = Sum256 lib data
      in CHR 0x22 # EncodeToString (take 8 hash) @ [CHR 0x22])"

section \<open>Request handler (internal/cdn/server.go)\<close>

record Request =
  Method :: string
  Host :: string
  Path :: string
  Header :: "string \<rightharpoonup> string"

text \<open>
  What the handler leaves in the \<open>http.ResponseWriter\<close>: the headers it set, the status
  (200 unless \<open>WriteHeader\<close> was called with another one) and the bytes it wrote.
\<close>

record Response =
  header :: "string \<rightharpoonup> string"
  status :: nat
  body :: "byte list"

definition new_response :: Response where
  "new_response = \<lparr>header = Map.empty, status = 200, body = []\<rparr>"

definition bytes :: "string \<Rightarrow> byte list" where
  "bytes s = map of_char s"

text \<open>
  \<open>http.NotFound\<close> is \<open>http.Error\<close> with "404 page not found" and status 404: it
  deletes the header Content-Length, sets Content-Type and X-Content-Type-Options,
  writes the status and the message with a line feed.
\<close>

definition http_NotFound :: "Response \<Rightarrow> Response" where
  "http_NotFound w =
     w\<lparr>header := (header w)(''Content-Length'' := None,
                            ''Content-Type'' \<mapsto> ''text/plain; charset=utf-8'',
                            ''X-Content-Type-Options'' \<mapsto> ''nosniff''),
       status := 404,
       body := body w @ bytes ''404 page not found'' @ [10]\<rparr>"

definition serveNotFound :: "Response \<Rightarrow> Response" where
  "serveNotFound w =
     http_NotFound
       (w\<lparr>header := (header w)(''Cache-Control'' \<mapsto> ''public, max-age=60'',
                               ''X-Content-Type-Options'' \<mapsto> ''nosniff'')\<rparr>)"

text \<open>\<open>SplitN2 s\<close> is \<open>strings.SplitN(s, "/", 2)\<close>.\<close>

definition SplitN2 :: "string \<Rightarrow> string list" where
  "SplitN2 s =
     (if CHR ''/'' \<in> set s
      then [takeWhile (\<lambda>c. c \<noteq> CHR ''/'') s, tl (dropWhile (\<lambda>c. c \<noteq> CHR ''/'') s)]
      else [s])"

text \<open>
  The handler, in two parts. \<open>route\<close> is its body up to the call of \<open>GetFile\<close>: it
  ends the request as not found or as the answer to OPTIONS, or gives the three
  arguments of \<open>GetFile\<close>. \<open>ks\<close> is the order in which the range over the map of hosts
  visits the keys.
\<close>

datatype route = RouteNotFound | RouteOptions | RouteGetFile string string string

definition route :: "ConfigManager \<Rightarrow> string list \<Rightarrow> Request \<Rightarrow> route" where
  "route cm ks r =
     (let host = TrimPrefix (TrimPrefix (Host r) ''http://'') ''https://''
      in case GetDomainByFQDN cm ks host of
           (domainFolder, displayName, ok) \<Rightarrow>
             if \<not> ok then RouteNotFound
             else
               (let path = TrimPrefix (Path r) ''/'';
                    parts = SplitN2 path
                in if length parts < 2 then RouteNotFound
                   else
                     (let category = parts ! 0; filename = parts ! 1
                      in if Method r = ''OPTIONS'' then RouteOptions
                         else if Method r \<noteq> ''GET'' \<and> Method r \<noteq> ''HEAD'' then RouteNotFound
                         else RouteGetFile domainFolder category filename)))"

definition Handler ::
  "stdlib \<Rightarrow> Storage \<Rightarrow> disk \<Rightarrow> ConfigManager \<Rightarrow> string list \<Rightarrow> Request \<Rightarrow> Response" where
  "Handler lib s d cm ks r =
     (case route cm ks r of
        RouteNotFound \<Rightarrow> serveNotFound new_response
      | RouteOptions \<Rightarrow>
          new_response\<lparr>header := [''Access-Control-Allow-Origin'' \<mapsto> ''*'',
                                  ''Access-Control-Allow-Methods'' \<mapsto> ''GET, HEAD, OPTIONS'',
                                  ''Access-Control-Max-Age'' \<mapsto> ''86400'']\<rparr>
      | RouteGetFile domainFolder category filename \<Rightarrow>
          (case GetFile lib s d domainFolder category filename of
             Inl e \<Rightarrow> serveNotFound new_response
           | Inr None \<Rightarrow> serveNotFound new_response
           | Inr (Some (data, contentType)) \<Rightarrow>
               (let etag = GenerateETag lib data
                in if index (Header r) ''If-None-Match'' = etag
                   then new_response\<lparr>status := 304\<rparr>
                   else
                     (let h = [''Content-Type'' \<mapsto> contentType,
                               ''ETag'' \<mapsto> etag,
                               ''Cache-Control'' \<mapsto> ''public, max-age=31536000, immutable'',
                               ''X-Content-Type-Options'' \<mapsto> ''nosniff''];
                          h' = (if index (Header r) ''Origin'' \<noteq> []
                                then h(''Access-Control-Allow-Origin'' \<mapsto> index (Header r) ''Origin'')
                                else h)
                      in new_response\<lparr>header := h',
                           body := (if Method r \<noteq> ''HEAD'' then data else [])\<rparr>))))"

section \<open>Example data\<close>

text \<open>
  A small installation on which the theorems below are run: stand-ins for the three
  library functions, the storage of the program (\<open>/app/storage\<close>), a registry with one
  domain, a file system with the storage directory and one file outside it, and one
  stored blob.
\<close>

definition demo_lib :: stdlib where
  "demo_lib =
     \<lparr>Sum256 = (\<lambda>b. replicate 32 (of_nat (length b))),
      TypeByExtension = (\<lambda>e. if e = ''.txt'' then ''text/plain; charset=utf-8'' else []),
      DetectContentType = (\<lambda>b. ''application/octet-stream'')\<rparr>"

definition demo_storage :: Storage where
  "demo_storage = \<lparr>basePath = ''/app/storage''\<rparr>"

definition demo_registry :: ConfigManager where
  "demo_registry = snd (AddDomain NewConfigManager ''main'' ''Main CDN'' ''cdn.example.com'')"

definition demo_disk :: disk where
  "demo_disk =
     \<lparr>root = Dir [(''etc'', Dir [(''passwd'', File (bytes ''root''))]),
                  (''app'', Dir [(''storage'', Dir [])])],
      cwd = []\<rparr>"

definition demo_request :: "string \<Rightarrow> string \<Rightarrow> string \<Rightarrow> Request" where
  "demo_request m h p = \<lparr>Method = m, Host = h, Path = p, Header = Map.empty\<rparr>"

definition demo_stored :: "(error + string \<times> nat) \<times> disk" where
  "demo_stored =
     StoreFile demo_storage demo_disk ''u1'' ''main'' ''img'' (bytes ''hi'') ''text/plain'' ''.txt''"

text \<open>A file system where the category directory holds three files and a directory.\<close>

definition demo_listing_disk :: disk where
  "demo_listing_disk =
     \<lparr>root = Dir [(''app'', Dir [(''storage'', Dir [(''main'', Dir [(''img'',
               Dir [(''zz.txt'', File (bytes ''z'')),
                    (''sub'', Dir [(''inner.txt'', File [])]),
                    (''aa.txt'', File (bytes ''a'')),
                    (''Mm.txt'', File [])])])])])],
      cwd = []\<rparr>"

section \<open>Registry: theorems\<close>

subsection \<open>The key sets of the maps\<close>

lemma consistent_New: "consistent NewConfigManager"
  by (simp add: consistent_def NewConfigManager_def)

lemma consistent_load_domain: "consistent cm \<Longrightarrow> consistent (load_domain cm d)"
  by (simp add: consistent_def load_domain_def Let_def)

lemma consistent_load_category: "consistent cm \<Longrightarrow> consistent (load_category cm c)"
  by (simp add: consistent_def load_category_def Let_def)

lemma consistent_foldl_load_domain: "consistent cm \<Longrightarrow> consistent (foldl load_domain cm ds)"
  by (induction ds arbitrary: cm) (simp_all add: consistent_load_domain)

lemma consistent_foldl_load_category:
  "consistent cm \<Longrightarrow> consistent (foldl load_category cm cs)"
  by (induction cs arbitrary: cm) (simp_all add: consistent_load_category)

lemma consistent_LoadDomains: "consistent cm \<Longrightarrow> consistent (snd (LoadDomains cm r))"
proof (cases r)
  case (Inl e)
  assume "consistent cm"
  with Inl show ?thesis by (simp add: LoadDomains_def)
next
  case (Inr ds)
  assume c: "consistent cm"
  have "consistent (cm\<lparr>domains := Map.empty, domainDisplayNames := Map.empty,
                  domainFQDNs := Map.empty\<rparr>)"
    using c by (simp add: consistent_def)
  then show ?thesis using Inr
    by (simp add: LoadDomains_def consistent_foldl_load_domain)
qed

lemma consistent_LoadCategories:
  "consistent cm \<Longrightarrow> consistent (snd (LoadCategories cm r))"
proof (cases r)
  case (Inl e)
  assume "consistent cm"
  with Inl show ?thesis by (simp add: LoadCategories_def)
next
  case (Inr cs)
  assume c: "consistent cm"
  have "consistent (cm\<lparr>categories := Map.empty, categoryDisplayNames := Map.empty\<rparr>)"
    using c by (simp add: consistent_def)
  then show ?thesis using Inr
    by (simp add: LoadCategories_def consistent_foldl_load_category)
qed

lemma consistent_AddDomain: "consistent cm \<Longrightarrow> consistent (snd (AddDomain cm f d h))"
  by (simp add: consistent_def AddDomain_def Let_def)

lemma consistent_RemoveDomain: "consistent cm \<Longrightarrow> consistent (snd (RemoveDomain cm f))"
  by (auto simp add: consistent_def RemoveDomain_def)

lemma consistent_AddCategory: "consistent cm \<Longrightarrow> consistent (snd (AddCategory cm f d))"
  by (simp add: consistent_def AddCategory_def Let_def)

lemma consistent_RemoveCategory: "consistent cm \<Longrightarrow> consistent (snd (RemoveCategory cm f))"
  by (auto simp add: consistent_def RemoveCategory_def)

lemma consistent_apply_op: "consistent cm \<Longrightarrow> consistent (apply_op cm x)"
  by (cases x)
    (simp_all add: consistent_LoadDomains consistent_LoadCategories consistent_AddDomain
      consistent_RemoveDomain consistent_AddCategory consistent_RemoveCategory)

lemma consistent_foldl_apply_op: "consistent cm \<Longrightarrow> consistent (foldl apply_op cm ops)"
  by (induction ops arbitrary: cm) (simp_all add: consistent_apply_op)

lemma consistent_run_ops: "consistent (run_ops ops)"
  by (simp add: run_ops_def consistent_foldl_apply_op consistent_New)

text \<open>
  C10. After any sequence of Registry operations on a new registry, the three domain
  maps have the same keys and the two category maps have the same keys; so
  \<open>GetDomainName\<close> and \<open>GetDomainFQDN\<close> report a folder name as present exactly when
  \<open>DomainExists\<close> holds for it.
\<close>

theorem registry_maps_same_keys:
  "dom (domainDisplayNames (run_ops ops)) = dom (domains (run_ops ops)) \<and>
   dom (domainFQDNs (run_ops ops)) = dom (domains (run_ops ops)) \<and>
   dom (categoryDisplayNames (run_ops ops)) = dom (categories (run_ops ops)) \<and>
   snd (GetDomainName (run_ops ops) f) = DomainExists (run_ops ops) f \<and>
   snd (GetDomainFQDN (run_ops ops) f) = DomainExists (run_ops ops) f"
proof -
  have c: "consistent (run_ops ops)" by (rule consistent_run_ops)
  have a: "dom (domainDisplayNames (run_ops ops)) = dom (domains (run_ops ops))"
    and b: "dom (domainFQDNs (run_ops ops)) = dom (domains (run_ops ops))"
    and d: "dom (categoryDisplayNames (run_ops ops)) = dom (categories (run_ops ops))"
    using c by (simp_all add: consistent_def)
  have e: "snd (GetDomainName (run_ops ops) f) = DomainExists (run_ops ops) f"
  proof -
    have "(domainDisplayNames (run_ops ops) f = None) = (domains (run_ops ops) f = None)"
      using a by (metis domIff)
    then show ?thesis
      by (cases "domainDisplayNames (run_ops ops) f") (auto simp add: GetDomainName_def DomainExists_def)
  qed
  have g: "snd (GetDomainFQDN (run_ops ops) f) = DomainExists (run_ops ops) f"
  proof -
    have "(domainFQDNs (run_ops ops) f = None) = (domains (run_ops ops) f = None)"
      using b by (metis domIff)
    then show ?thesis
      by (cases "domainFQDNs (run_ops ops) f") (auto simp add: GetDomainFQDN_def DomainExists_def)
  qed
  from a b d e g show ?thesis by simp
qed

theorem registry_maps_same_keys_witness:
  "dom (domainDisplayNames (run_ops [OpAddDomain ''a b'' ''A'' ''http://x.org/'', OpAddCategory ''img'' ''Images'', OpRemoveDomain ''zz'']))
     = {''a-b''} \<and>
   dom (domainFQDNs (run_ops [OpAddDomain ''a b'' ''A'' ''http://x.org/'', OpAddCategory ''img'' ''Images'', OpRemoveDomain ''zz'']))
     = {''a-b''} \<and>
   GetDomainFQDN (run_ops [OpAddDomain ''a b'' ''A'' ''http://x.org/'', OpAddCategory ''img'' ''Images'', OpRemoveDomain ''zz'']) ''a-b'' = (''x.org'', True)"
  using registry_maps_same_keys [of "[OpAddDomain ''a b'' ''A'' ''http://x.org/'', OpAddCategory ''img'' ''Images'', OpRemoveDomain ''zz'']" "''a-b''"]
  by (simp add: run_ops_def NewConfigManager_def AddDomain_def AddCategory_def RemoveDomain_def
      ReplaceAll_def stripProtocol_def TrimPrefix_def TrimSuffix_def GetDomainFQDN_def Let_def)

subsection \<open>Folder names and spaces\<close>

lemma ReplaceAll_removes: "old \<noteq> new \<Longrightarrow> old \<notin> set (ReplaceAll s old new)"
  by (auto simp add: ReplaceAll_def)

lemma no_space_New: "no_space_keys NewConfigManager"
  by (simp add: no_space_keys_def NewConfigManager_def)

lemma no_space_load_domain: "no_space_keys cm \<Longrightarrow> no_space_keys (load_domain cm d)"
  using ReplaceAll_removes [of "CHR '' ''" "CHR ''-''" "FolderName d"]
  by (simp add: no_space_keys_def load_domain_def Let_def)

lemma no_space_load_category: "no_space_keys cm \<Longrightarrow> no_space_keys (load_category cm c)"
  using ReplaceAll_removes [of "CHR '' ''" "CHR ''-''" "CategoryFolderName c"]
  by (simp add: no_space_keys_def load_category_def Let_def)

lemma no_space_foldl_load_domain:
  "no_space_keys cm \<Longrightarrow> no_space_keys (foldl load_domain cm ds)"
  by (induction ds arbitrary: cm) (simp_all add: no_space_load_domain)

lemma no_space_foldl_load_category:
  "no_space_keys cm \<Longrightarrow> no_space_keys (foldl load_category cm cs)"
  by (induction cs arbitrary: cm) (simp_all add: no_space_load_category)

lemma no_space_LoadDomains: "no_space_keys cm \<Longrightarrow> no_space_keys (snd (LoadDomains cm r))"
proof (cases r)
  case (Inl e)
  assume "no_space_keys cm"
  with Inl show ?thesis by (simp add: LoadDomains_def)
next
  case (Inr ds)
  assume c: "no_space_keys cm"
  have "no_space_keys (cm\<lparr>domains := Map.empty, domainDisplayNames := Map.empty,
                  domainFQDNs := Map.empty\<rparr>)"
    using c by (simp add: no_space_keys_def)
  then show ?thesis using Inr
    by (simp add: LoadDomains_def no_space_foldl_load_domain)
qed

lemma no_space_LoadCategories:
  "no_space_keys cm \<Longrightarrow> no_space_keys (snd (LoadCategories cm r))"
proof (cases r)
  case (Inl e)
  assume "no_space_keys cm"
  with Inl show ?thesis by (simp add: LoadCategories_def)
next
  case (Inr cs)
  assume c: "no_space_keys cm"
  have "no_space_keys (cm\<lparr>categories := Map.empty, categoryDisplayNames := Map.empty\<rparr>)"
    using c by (simp add: no_space_keys_def)
  then show ?thesis using Inr
    by (simp add: LoadCategories_def no_space_foldl_load_category)
qed

lemma no_space_AddDomain: "no_space_keys cm \<Longrightarrow> no_space_keys (snd (AddDomain cm f d h))"
  using ReplaceAll_removes [of "CHR '' ''" "CHR ''-''" f]
  by (simp add: no_space_keys_def AddDomain_def Let_def)

lemma no_space_RemoveDomain: "no_space_keys cm \<Longrightarrow> no_space_keys (snd (RemoveDomain cm f))"
  by (simp add: no_space_keys_def RemoveDomain_def)

lemma no_space_AddCategory: "no_space_keys cm \<Longrightarrow> no_space_keys (snd (AddCategory cm f d))"
  using ReplaceAll_removes [of "CHR '' ''" "CHR ''-''" f]
  by (simp add: no_space_keys_def AddCategory_def Let_def)

lemma no_space_RemoveCategory:
  "no_space_keys cm \<Longrightarrow> no_space_keys (snd (RemoveCategory cm f))"
  by (simp add: no_space_keys_def RemoveCategory_def)

lemma no_space_apply_op: "no_space_keys cm \<Longrightarrow> no_space_keys (apply_op cm x)"
  by (cases x)
    (simp_all add: no_space_LoadDomains no_space_LoadCategories no_space_AddDomain
      no_space_RemoveDomain no_space_AddCategory no_space_RemoveCategory)

lemma no_space_foldl_apply_op: "no_space_keys cm \<Longrightarrow> no_space_keys (foldl apply_op cm ops)"
  by (induction ops arbitrary: cm) (simp_all add: no_space_apply_op)

lemma no_space_run_ops: "no_space_keys (run_ops ops)"
  by (simp add: run_ops_def no_space_foldl_apply_op no_space_New)

subsection \<open>Adding a domain that exists\<close>

lemma ReplaceAll_absent: "old \<notin> set s \<Longrightarrow> ReplaceAll s old new = s"
  unfolding ReplaceAll_def by (induction s) auto

lemma AddDomain_exists:
  "DomainExists cm (ReplaceAll folderName CHR '' '' CHR ''-'') \<Longrightarrow>
     AddDomain cm folderName displayName publicHost =
       (Some (AlreadyExists (ReplaceAll folderName CHR '' '' CHR ''-'')), cm)"
  by (simp add: AddDomain_def DomainExists_def Let_def)

text \<open>
  C4. When the folder name, normalized, is already registered as a domain, \<open>AddDomain\<close>
  fails with the already-exists error (naming the normalized folder name) and the
  registry after the call is the registry before it. In a registry reached by Registry
  operations from a new one, a registered folder name is its own normal form, so
  \<open>AddDomain\<close> with a registered folder name fails in this way.
\<close>

theorem AddDomain_existing_fails:
  "(DomainExists cm (ReplaceAll folderName CHR '' '' CHR ''-'') \<longrightarrow>
      AddDomain cm folderName displayName publicHost =
        (Some (AlreadyExists (ReplaceAll folderName CHR '' '' CHR ''-'')), cm))
   \<and> (DomainExists (run_ops ops) folderName \<longrightarrow>
      AddDomain (run_ops ops) folderName displayName publicHost =
        (Some (AlreadyExists folderName), run_ops ops))"
proof -
  have a: "DomainExists cm (ReplaceAll folderName CHR '' '' CHR ''-'') \<longrightarrow>
      AddDomain cm folderName displayName publicHost =
        (Some (AlreadyExists (ReplaceAll folderName CHR '' '' CHR ''-'')), cm)"
    by (rule impI) (rule AddDomain_exists)
  have b: "DomainExists (run_ops ops) folderName \<longrightarrow>
      AddDomain (run_ops ops) folderName displayName publicHost =
        (Some (AlreadyExists folderName), run_ops ops)"
  proof
    assume e: "DomainExists (run_ops ops) folderName"
    then have "CHR '' '' \<notin> set folderName"
      using no_space_run_ops [of ops] by (simp add: no_space_keys_def DomainExists_def)
    then have n: "ReplaceAll folderName CHR '' '' CHR ''-'' = folderName"
      by (rule ReplaceAll_absent)
    show "AddDomain (run_ops ops) folderName displayName publicHost =
        (Some (AlreadyExists folderName), run_ops ops)"
      using AddDomain_exists [of "run_ops ops" folderName displayName publicHost] e
      by (simp only: n)
  qed
  from a b show ?thesis by (intro conjI)
qed

theorem AddDomain_existing_fails_witness:
  "DomainExists (run_ops [OpAddDomain ''my cdn'' ''Main'' ''cdn.example.com''])
     (ReplaceAll ''my cdn'' CHR '' '' CHR ''-'')
   \<and> AddDomain (run_ops [OpAddDomain ''my cdn'' ''Main'' ''cdn.example.com''])
       ''my cdn'' ''Other'' ''other.example.com''
     = (Some (AlreadyExists ''my-cdn''),
        run_ops [OpAddDomain ''my cdn'' ''Main'' ''cdn.example.com''])
   \<and> DomainExists (run_ops [OpAddDomain ''my cdn'' ''Main'' ''cdn.example.com'']) ''my-cdn''
   \<and> AddDomain (run_ops [OpAddDomain ''my cdn'' ''Main'' ''cdn.example.com''])
       ''my-cdn'' ''Other'' ''other.example.com''
     = (Some (AlreadyExists ''my-cdn''),
        run_ops [OpAddDomain ''my cdn'' ''Main'' ''cdn.example.com''])"
proof -
  let ?cm = "run_ops [OpAddDomain ''my cdn'' ''Main'' ''cdn.example.com'']"
  have n: "ReplaceAll ''my cdn'' CHR '' '' CHR ''-'' = ''my-cdn''"
    by (simp add: ReplaceAll_def)
  have e: "DomainExists ?cm ''my-cdn''"
    by (simp add: run_ops_def AddDomain_def DomainExists_def NewConfigManager_def
        ReplaceAll_def Let_def)
  have e': "DomainExists ?cm (ReplaceAll ''my cdn'' CHR '' '' CHR ''-'')"
    using e by (simp only: n)
  note t1 = AddDomain_existing_fails [where cm = ?cm and folderName = "''my cdn''"
      and displayName = "''Other''" and publicHost = "''other.example.com''",
      THEN conjunct1, THEN mp, OF e', unfolded n]
  note t2 = AddDomain_existing_fails [where ops = "[OpAddDomain ''my cdn'' ''Main'' ''cdn.example.com'']"
      and folderName = "''my-cdn''" and displayName = "''Other''"
      and publicHost = "''other.example.com''", THEN conjunct2, THEN mp, OF e]
  from e' t1 e t2 show ?thesis by (intro conjI)
qed

text \<open>
  C7 (amended). \<open>AddDomain\<close> and \<open>AddCategory\<close> register the folder name with every
  space character replaced by a dash, and after any sequence of Registry operations on
  a new registry no registered domain or category folder name holds the space
  character. Other whitespace (tab, line feed) is kept as it is.
\<close>

theorem folder_ids_without_space:
  "(fst (AddDomain cm f d h) = None \<longrightarrow>
      domains (snd (AddDomain cm f d h)) = (domains cm)(ReplaceAll f CHR '' '' CHR ''-'' \<mapsto> ''exists''))
   \<and> (fst (AddCategory cm f d) = None \<longrightarrow>
      categories (snd (AddCategory cm f d)) = (categories cm)(ReplaceAll f CHR '' '' CHR ''-'' \<mapsto> ''exists''))
   \<and> (DomainExists (run_ops ops) k \<or> snd (GetCategoryID (run_ops ops) k) \<longrightarrow> CHR '' '' \<notin> set k)"
proof -
  have a: "fst (AddDomain cm f d h) = None \<longrightarrow>
      domains (snd (AddDomain cm f d h)) = (domains cm)(ReplaceAll f CHR '' '' CHR ''-'' \<mapsto> ''exists'')"
    by (simp add: AddDomain_def Let_def)
  have b: "fst (AddCategory cm f d) = None \<longrightarrow>
      categories (snd (AddCategory cm f d)) = (categories cm)(ReplaceAll f CHR '' '' CHR ''-'' \<mapsto> ''exists'')"
    by (simp add: AddCategory_def Let_def)
  have c: "DomainExists (run_ops ops) k \<or> snd (GetCategoryID (run_ops ops) k) \<longrightarrow> CHR '' '' \<notin> set k"
    using no_space_run_ops [of ops] by (simp add: no_space_keys_def DomainExists_def GetCategoryID_def)
  from a b c show ?thesis by blast
qed

theorem folder_ids_without_space_witness:
  "fst (AddDomain NewConfigManager ''my cdn'' ''Main'' ''cdn.example.com'') = None
   \<and> domains (snd (AddDomain NewConfigManager ''my cdn'' ''Main'' ''cdn.example.com'')) ''my-cdn'' = Some ''exists''
   \<and> fst (AddCategory NewConfigManager ''my cdn'' ''Main'') = None
   \<and> categories (snd (AddCategory NewConfigManager ''my cdn'' ''Main'')) ''my-cdn'' = Some ''exists''
   \<and> DomainExists (run_ops [OpAddDomain ''my cdn'' ''Main'' ''cdn.example.com'']) ''my-cdn''
   \<and> CHR '' '' \<notin> set ''my-cdn''"
  using folder_ids_without_space [of NewConfigManager "''my cdn''" "''Main''" "''cdn.example.com''"
      "[OpAddDomain ''my cdn'' ''Main'' ''cdn.example.com'']" "''my-cdn''"]
  by (simp add: run_ops_def NewConfigManager_def AddDomain_def AddCategory_def DomainExists_def
      ReplaceAll_def Let_def)

text \<open>
  C7 as stated fails: a folder name with a tab (or a line feed) is registered unchanged.
\<close>

theorem folder_id_with_tab_counterexample:
  "DomainExists (run_ops [OpAddDomain [CHR ''a'', CHR 0x09, CHR ''b''] ''Main'' ''cdn.example.com''])
     [CHR ''a'', CHR 0x09, CHR ''b'']
   \<and> snd (GetCategoryID (run_ops [OpAddCategory [CHR ''a'', CHR 0x0A, CHR ''b''] ''Images''])
     [CHR ''a'', CHR 0x0A, CHR ''b''])
   \<and> CHR 0x09 \<in> set [CHR ''a'', CHR 0x09, CHR ''b'']
   \<and> CHR 0x0A \<in> set [CHR ''a'', CHR 0x0A, CHR ''b'']"
  by (simp add: run_ops_def NewConfigManager_def AddDomain_def AddCategory_def DomainExists_def
      GetCategoryID_def ReplaceAll_def Let_def)

subsection \<open>Lookup by host\<close>

lemma GetDomainByFQDN_found:
  "GetDomainByFQDN cm ks host = (f, d, True) \<Longrightarrow>
     f \<in> set ks \<and> domainFQDNs cm f = Some host \<and> d = index (domainDisplayNames cm) f"
  by (induction ks) (auto split: if_splits)

lemma GetDomainByFQDN_none:
  "\<forall>f\<in>set ks. domainFQDNs cm f \<noteq> Some host \<Longrightarrow> GetDomainByFQDN cm ks host = ([], [], False)"
  by (induction ks) auto

lemma GetDomainByFQDN_some:
  "f \<in> set ks \<Longrightarrow> domainFQDNs cm f = Some host \<Longrightarrow> snd (snd (GetDomainByFQDN cm ks host))"
  by (induction ks) auto

lemma GetDomainByFQDN_only:
  assumes "f \<in> set ks" and "domainFQDNs cm f = Some host"
    and "\<And>g. domainFQDNs cm g = Some host \<Longrightarrow> g = f"
  shows "GetDomainByFQDN cm ks host = (f, index (domainDisplayNames cm) f, True)"
  using assms(1)
proof (induction ks)
  case Nil
  then show ?case by simp
next
  case (Cons k ks)
  show ?case
  proof (cases "domainFQDNs cm k = Some host")
    case True
    then have "k = f" by (rule assms(3))
    with True show ?thesis by simp
  next
    case False
    with assms(2) have "k \<noteq> f" by auto
    with Cons False show ?thesis by simp
  qed
qed

text \<open>
  C1 (amended). \<open>AddDomain\<close> enforces uniqueness of the folder name only: it succeeds
  exactly when the normalized folder name is not registered yet, whatever hosts are
  stored, and then stores the protocol-stripped host under that folder name. Every
  domain that \<open>GetDomainByFQDN\<close> returns has the given host as its stored host; there
  can be several such domains.
\<close>

theorem AddDomain_checks_folder_only:
  "(fst (AddDomain cm f d h) = None) = (\<not> DomainExists cm (ReplaceAll f CHR '' '' CHR ''-''))
   \<and> (\<not> DomainExists cm (ReplaceAll f CHR '' '' CHR ''-'') \<longrightarrow>
        domainFQDNs (snd (AddDomain cm f d h)) =
          (domainFQDNs cm)(ReplaceAll f CHR '' '' CHR ''-'' \<mapsto> stripProtocol h))
   \<and> (range_order (domainFQDNs cm) ks \<and> GetDomainByFQDN cm ks host = (g, n, True) \<longrightarrow>
        domainFQDNs cm g = Some host)"
proof -
  have a: "(fst (AddDomain cm f d h) = None) = (\<not> DomainExists cm (ReplaceAll f CHR '' '' CHR ''-''))"
    by (simp add: AddDomain_def DomainExists_def Let_def)
  have b: "\<not> DomainExists cm (ReplaceAll f CHR '' '' CHR ''-'') \<longrightarrow>
        domainFQDNs (snd (AddDomain cm f d h)) =
          (domainFQDNs cm)(ReplaceAll f CHR '' '' CHR ''-'' \<mapsto> stripProtocol h)"
    by (simp add: AddDomain_def DomainExists_def Let_def)
  have c: "range_order (domainFQDNs cm) ks \<and> GetDomainByFQDN cm ks host = (g, n, True) \<longrightarrow>
        domainFQDNs cm g = Some host"
    using GetDomainByFQDN_found [of cm ks host g n] by blast
  from a b c show ?thesis by blast
qed

theorem AddDomain_checks_folder_only_witness:
  "fst (AddDomain (snd (AddDomain NewConfigManager ''a'' ''A'' ''cdn.example.com''))
         ''b'' ''B'' ''https://cdn.example.com/'') = None
   \<and> \<not> DomainExists (snd (AddDomain NewConfigManager ''a'' ''A'' ''cdn.example.com'')) ''b''
   \<and> domainFQDNs (snd (AddDomain (snd (AddDomain NewConfigManager ''a'' ''A'' ''cdn.example.com''))
         ''b'' ''B'' ''https://cdn.example.com/'')) ''b'' = Some ''cdn.example.com''
   \<and> range_order (domainFQDNs (snd (AddDomain NewConfigManager ''a'' ''A'' ''cdn.example.com''))) [''a'']
   \<and> GetDomainByFQDN (snd (AddDomain NewConfigManager ''a'' ''A'' ''cdn.example.com'')) [''a'']
         ''cdn.example.com'' = (''a'', ''A'', True)"
proof -
  let ?cm = "snd (AddDomain NewConfigManager ''a'' ''A'' ''cdn.example.com'')"
  have m: "domainFQDNs ?cm = [''a'' \<mapsto> ''cdn.example.com'']"
    and n: "domainDisplayNames ?cm = [''a'' \<mapsto> ''A'']"
    and e: "domains ?cm = [''a'' \<mapsto> ''exists'']"
    by (simp_all add: NewConfigManager_def AddDomain_def ReplaceAll_def
      stripProtocol_def TrimPrefix_def TrimSuffix_def Let_def)
  have nb: "ReplaceAll ''b'' CHR '' '' CHR ''-'' = ''b''"
    by (simp add: ReplaceAll_def)
  have sp: "stripProtocol ''https://cdn.example.com/'' = ''cdn.example.com''"
    by (simp add: stripProtocol_def TrimPrefix_def TrimSuffix_def)
  have ne: "\<not> DomainExists ?cm ''b''"
    by (simp add: DomainExists_def e)
  have r: "range_order (domainFQDNs ?cm) [''a'']"
    by (simp add: m range_order_def)
  have g: "GetDomainByFQDN ?cm [''a''] ''cdn.example.com'' = (''a'', ''A'', True)"
    by (simp add: m n index_def)
  show ?thesis
    using AddDomain_checks_folder_only [of ?cm "''b''" "''B''" "''https://cdn.example.com/''"
      "[''a'']" "''cdn.example.com''" "''a''" "''A''"] ne r g
    by (simp only: nb sp) simp
qed

text \<open>
  C1 as stated fails: after adding two domains with one host, both folder names carry
  that host, and \<open>GetDomainByFQDN\<close> answers with either of them, as the range over
  the map happens to visit them.
\<close>

theorem publicHost_shared_counterexample:
  "domainFQDNs (run_ops [OpAddDomain ''a'' ''A'' ''cdn.example.com'',
                         OpAddDomain ''b'' ''B'' ''cdn.example.com'']) ''a'' = Some ''cdn.example.com''
   \<and> domainFQDNs (run_ops [OpAddDomain ''a'' ''A'' ''cdn.example.com'',
                         OpAddDomain ''b'' ''B'' ''cdn.example.com'']) ''b'' = Some ''cdn.example.com''
   \<and> ''a'' \<noteq> ''b''
   \<and> range_order (domainFQDNs (run_ops [OpAddDomain ''a'' ''A'' ''cdn.example.com'',
                         OpAddDomain ''b'' ''B'' ''cdn.example.com''])) [''a'', ''b'']
   \<and> range_order (domainFQDNs (run_ops [OpAddDomain ''a'' ''A'' ''cdn.example.com'',
                         OpAddDomain ''b'' ''B'' ''cdn.example.com''])) [''b'', ''a'']
   \<and> GetDomainByFQDN (run_ops [OpAddDomain ''a'' ''A'' ''cdn.example.com'',
                         OpAddDomain ''b'' ''B'' ''cdn.example.com'']) [''a'', ''b''] ''cdn.example.com''
       = (''a'', ''A'', True)
   \<and> GetDomainByFQDN (run_ops [OpAddDomain ''a'' ''A'' ''cdn.example.com'',
                         OpAddDomain ''b'' ''B'' ''cdn.example.com'']) [''b'', ''a''] ''cdn.example.com''
       = (''b'', ''B'', True)"
proof -
  let ?cm = "run_ops [OpAddDomain ''a'' ''A'' ''cdn.example.com'',
                         OpAddDomain ''b'' ''B'' ''cdn.example.com'']"
  have m: "domainFQDNs ?cm = [''a'' \<mapsto> ''cdn.example.com'', ''b'' \<mapsto> ''cdn.example.com'']"
    and n: "domainDisplayNames ?cm = [''a'' \<mapsto> ''A'', ''b'' \<mapsto> ''B'']"
    by (simp_all add: run_ops_def NewConfigManager_def AddDomain_def ReplaceAll_def
      stripProtocol_def TrimPrefix_def TrimSuffix_def Let_def)
  have 1: "domainFQDNs ?cm ''a'' = Some ''cdn.example.com''" by (simp add: m)
  have 2: "domainFQDNs ?cm ''b'' = Some ''cdn.example.com''" by (simp add: m)
  have 3: "range_order (domainFQDNs ?cm) [''a'', ''b'']"
    unfolding m range_order_def by auto
  have 4: "range_order (domainFQDNs ?cm) [''b'', ''a'']"
    unfolding m range_order_def by auto
  have 5: "GetDomainByFQDN ?cm [''a'', ''b''] ''cdn.example.com'' = (''a'', ''A'', True)"
    by (simp add: m n index_def)
  have 6: "GetDomainByFQDN ?cm [''b'', ''a''] ''cdn.example.com'' = (''b'', ''B'', True)"
    by (simp add: m n index_def)
  from 1 2 3 4 5 6 show ?thesis by simp
qed

text \<open>
  C6. \<open>GetDomainByFQDN\<close> compares the host with the stored hosts by equality of
  strings (so case matters): a domain it returns has exactly this host stored and comes
  with its display name; it reports found exactly when some domain has this host
  stored, and not-found (empty strings, false) otherwise; when one domain only has the
  host, that domain is the answer, whatever the order of the range. In particular,
  after \<open>AddDomain\<close> succeeds on a registry where no domain has the cleaned host yet
  (such as a new registry), the lookup of that host returns the normalized folder name
  and the display name just added.
\<close>

theorem GetDomainByFQDN_exact:
  assumes "range_order (domainFQDNs cm) ks"
  shows "(GetDomainByFQDN cm ks host = (f, d, True) \<longrightarrow>
            domainFQDNs cm f = Some host \<and> d = index (domainDisplayNames cm) f)
       \<and> (snd (snd (GetDomainByFQDN cm ks host)) = (\<exists>g. domainFQDNs cm g = Some host))
       \<and> ((\<forall>g. domainFQDNs cm g \<noteq> Some host) \<longrightarrow> GetDomainByFQDN cm ks host = ([], [], False))
       \<and> (domainFQDNs cm f = Some host \<and> (\<forall>g. domainFQDNs cm g = Some host \<longrightarrow> g = f) \<longrightarrow>
            GetDomainByFQDN cm ks host = (f, index (domainDisplayNames cm) f, True))
       \<and> (cm = snd (AddDomain cm0 f0 d0 h0) \<and> fst (AddDomain cm0 f0 d0 h0) = None \<and>
            (\<forall>g. domainFQDNs cm0 g \<noteq> Some (stripProtocol h0)) \<longrightarrow>
            GetDomainByFQDN cm ks (stripProtocol h0) =
              (ReplaceAll f0 CHR '' '' CHR ''-'', d0, True))"
proof -
  have ks: "\<And>g v. domainFQDNs cm g = Some v \<Longrightarrow> g \<in> set ks"
    using assms by (auto simp add: range_order_def)
  have a: "GetDomainByFQDN cm ks host = (f, d, True) \<longrightarrow>
            domainFQDNs cm f = Some host \<and> d = index (domainDisplayNames cm) f"
    using GetDomainByFQDN_found [of cm ks host f d] by simp
  have b: "snd (snd (GetDomainByFQDN cm ks host)) = (\<exists>g. domainFQDNs cm g = Some host)"
  proof
    assume "snd (snd (GetDomainByFQDN cm ks host))"
    then obtain g n where "GetDomainByFQDN cm ks host = (g, n, True)"
      by (cases "GetDomainByFQDN cm ks host") auto
    then show "\<exists>g. domainFQDNs cm g = Some host"
      using GetDomainByFQDN_found by blast
  next
    assume "\<exists>g. domainFQDNs cm g = Some host"
    then obtain g where g: "domainFQDNs cm g = Some host" ..
    then show "snd (snd (GetDomainByFQDN cm ks host))"
      using ks GetDomainByFQDN_some by blast
  qed
  have c: "(\<forall>g. domainFQDNs cm g \<noteq> Some host) \<longrightarrow> GetDomainByFQDN cm ks host = ([], [], False)"
    using GetDomainByFQDN_none [of ks cm host] by simp
  have e: "domainFQDNs cm f = Some host \<and> (\<forall>g. domainFQDNs cm g = Some host \<longrightarrow> g = f) \<longrightarrow>
            GetDomainByFQDN cm ks host = (f, index (domainDisplayNames cm) f, True)"
  proof
    assume h: "domainFQDNs cm f = Some host \<and> (\<forall>g. domainFQDNs cm g = Some host \<longrightarrow> g = f)"
    then have "f \<in> set ks" using ks by blast
    then show "GetDomainByFQDN cm ks host = (f, index (domainDisplayNames cm) f, True)"
      using h by (intro GetDomainByFQDN_only) blast+
  qed
  have i: "cm = snd (AddDomain cm0 f0 d0 h0) \<and> fst (AddDomain cm0 f0 d0 h0) = None \<and>
            (\<forall>g. domainFQDNs cm0 g \<noteq> Some (stripProtocol h0)) \<longrightarrow>
            GetDomainByFQDN cm ks (stripProtocol h0) =
              (ReplaceAll f0 CHR '' '' CHR ''-'', d0, True)"
  proof
    let ?n = "ReplaceAll f0 CHR '' '' CHR ''-''"
    assume h: "cm = snd (AddDomain cm0 f0 d0 h0) \<and> fst (AddDomain cm0 f0 d0 h0) = None \<and>
            (\<forall>g. domainFQDNs cm0 g \<noteq> Some (stripProtocol h0))"
    then have new: "domains cm0 ?n = None"
      by (simp add: AddDomain_def Let_def split: if_splits)
    have m: "domainFQDNs cm = (domainFQDNs cm0)(?n \<mapsto> stripProtocol h0)"
      and n: "domainDisplayNames cm = (domainDisplayNames cm0)(?n \<mapsto> d0)"
      using h new by (simp_all add: AddDomain_def Let_def)
    have 1: "domainFQDNs cm ?n = Some (stripProtocol h0)" by (simp add: m)
    have nohost: "\<And>g. domainFQDNs cm0 g \<noteq> Some (stripProtocol h0)"
      using h by blast
    have 2: "g = ?n" if "domainFQDNs cm g = Some (stripProtocol h0)" for g
      using that nohost [of g] unfolding m by (cases "g = ?n") simp_all
    have "?n \<in> set ks" using ks 1 by blast
    then have "GetDomainByFQDN cm ks (stripProtocol h0) = (?n, index (domainDisplayNames cm) ?n, True)"
      using 1 2 by (intro GetDomainByFQDN_only) blast+
    then show "GetDomainByFQDN cm ks (stripProtocol h0) = (?n, d0, True)"
      by (simp add: n index_def)
  qed
  from a b c e i show ?thesis by blast
qed

theorem GetDomainByFQDN_exact_witness:
  "range_order (domainFQDNs (snd (AddDomain NewConfigManager ''main'' ''Main CDN'' ''cdn.example.com''))) [''main'']
   \<and> fst (AddDomain NewConfigManager ''main'' ''Main CDN'' ''cdn.example.com'') = None
   \<and> GetDomainByFQDN (snd (AddDomain NewConfigManager ''main'' ''Main CDN'' ''cdn.example.com''))
        [''main''] ''cdn.example.com'' = (''main'', ''Main CDN'', True)
   \<and> GetDomainByFQDN (snd (AddDomain NewConfigManager ''main'' ''Main CDN'' ''cdn.example.com''))
        [''main''] ''other.com'' = ([], [], False)
   \<and> GetDomainByFQDN (snd (AddDomain NewConfigManager ''main'' ''Main CDN'' ''cdn.example.com''))
        [''main''] ''CDN.example.com'' = ([], [], False)"
proof -
  let ?cm = "snd (AddDomain NewConfigManager ''main'' ''Main CDN'' ''cdn.example.com'')"
  have m: "domainFQDNs ?cm = [''main'' \<mapsto> ''cdn.example.com'']"
    and n: "domainDisplayNames ?cm = [''main'' \<mapsto> ''Main CDN'']"
    and ok: "fst (AddDomain NewConfigManager ''main'' ''Main CDN'' ''cdn.example.com'') = None"
    by (simp_all add: NewConfigManager_def AddDomain_def ReplaceAll_def
      stripProtocol_def TrimPrefix_def TrimSuffix_def Let_def)
  have r: "range_order (domainFQDNs ?cm) [''main'']"
    by (simp add: m range_order_def)
  have u: "domainFQDNs ?cm ''main'' = Some ''cdn.example.com'' \<and>
           (\<forall>g. domainFQDNs ?cm g = Some ''cdn.example.com'' \<longrightarrow> g = ''main'')"
    by (simp add: m)
  have x: "\<forall>g. domainFQDNs ?cm g \<noteq> Some ''other.com''"
    by (simp add: m)
  have y: "\<forall>g. domainFQDNs ?cm g \<noteq> Some ''CDN.example.com''"
    by (simp add: m)
  have sp: "stripProtocol ''cdn.example.com'' = ''cdn.example.com''"
    by (simp add: stripProtocol_def TrimPrefix_def TrimSuffix_def)
  have nm: "ReplaceAll ''main'' CHR '' '' CHR ''-'' = ''main''"
    by (simp add: ReplaceAll_def)
  have fresh: "\<forall>g. domainFQDNs NewConfigManager g \<noteq> Some (stripProtocol ''cdn.example.com'')"
    by (simp add: NewConfigManager_def)
  have pre: "?cm = snd (AddDomain NewConfigManager ''main'' ''Main CDN'' ''cdn.example.com'') \<and>
      fst (AddDomain NewConfigManager ''main'' ''Main CDN'' ''cdn.example.com'') = None \<and>
      (\<forall>g. domainFQDNs NewConfigManager g \<noteq> Some (stripProtocol ''cdn.example.com''))"
    using ok fresh by blast
  note inst = GetDomainByFQDN_exact [OF r, of _ "''main''" "''Main CDN''" NewConfigManager
      "''main''" "''Main CDN''" "''cdn.example.com''"]
  have "GetDomainByFQDN ?cm [''main''] (stripProtocol ''cdn.example.com'') =
          (ReplaceAll ''main'' CHR '' '' CHR ''-'', ''Main CDN'', True)"
    using inst [of "''cdn.example.com''", THEN conjunct2, THEN conjunct2, THEN conjunct2,
        THEN conjunct2] pre by (rule mp)
  then have 1: "GetDomainByFQDN ?cm [''main''] ''cdn.example.com'' = (''main'', ''Main CDN'', True)"
    by (simp only: sp nm)
  have 2: "GetDomainByFQDN ?cm [''main''] ''other.com'' = ([], [], False)"
    using inst [of "''other.com''", THEN conjunct2, THEN conjunct2, THEN conjunct1] x
    by (rule mp)
  have 3: "GetDomainByFQDN ?cm [''main''] ''CDN.example.com'' = ([], [], False)"
    using inst [of "''CDN.example.com''", THEN conjunct2, THEN conjunct2, THEN conjunct1] y
    by (rule mp)
  from r ok 1 2 3 show ?thesis by (intro conjI)
qed

section \<open>Request handler: theorems\<close>

lemma GetDomainByFQDN_absent:
  "\<forall>g. domainFQDNs cm g \<noteq> Some host \<Longrightarrow> GetDomainByFQDN cm ks host = ([], [], False)"
  by (induction ks) auto

lemma SplitN2_short: "CHR ''/'' \<notin> set p \<Longrightarrow> length (SplitN2 p) < 2"
  by (simp add: SplitN2_def)

lemma SplitN2_long: "CHR ''/'' \<in> set p \<Longrightarrow> length (SplitN2 p) = 2"
  by (simp add: SplitN2_def)

lemma SplitN2_parts:
  "CHR ''/'' \<in> set p \<Longrightarrow>
     CHR ''/'' \<notin> set (SplitN2 p ! 0) \<and> p = SplitN2 p ! 0 @ CHR ''/'' # SplitN2 p ! 1"
proof -
  assume h: "CHR ''/'' \<in> set p"
  let ?P = "\<lambda>c. c \<noteq> CHR ''/''"
  have d: "dropWhile ?P p \<noteq> []" using h by (simp add: dropWhile_eq_Nil_conv)
  have hd: "hd (dropWhile ?P p) = CHR ''/''"
    using d hd_dropWhile [of ?P p] by simp
  have "dropWhile ?P p = CHR ''/'' # tl (dropWhile ?P p)"
    using d hd by (cases "dropWhile ?P p") simp_all
  then have "p = takeWhile ?P p @ CHR ''/'' # tl (dropWhile ?P p)"
    using takeWhile_dropWhile_id [of ?P p] by simp
  moreover have "CHR ''/'' \<notin> set (takeWhile ?P p)"
    using set_takeWhileD by fastforce
  ultimately show ?thesis using h by (simp add: SplitN2_def)
qed

lemma SplitN2_cat:
  "CHR ''/'' \<notin> set c \<Longrightarrow> SplitN2 (c @ CHR ''/'' # f) = [c, f]"
proof -
  assume h: "CHR ''/'' \<notin> set c"
  have a: "takeWhile (\<lambda>x. x \<noteq> CHR ''/'') (c @ CHR ''/'' # f) = c"
    using h by (induction c) auto
  have b: "dropWhile (\<lambda>x. x \<noteq> CHR ''/'') (c @ CHR ''/'' # f) = CHR ''/'' # f"
    using h by (induction c) auto
  show ?thesis by (simp add: SplitN2_def a b)
qed

lemma route_not_found:
  assumes "(Method r \<noteq> ''GET'' \<and> Method r \<noteq> ''HEAD'' \<and> Method r \<noteq> ''OPTIONS'')
         \<or> (\<forall>g. domainFQDNs cm g \<noteq> Some (TrimPrefix (TrimPrefix (Host r) ''http://'') ''https://''))
         \<or> CHR ''/'' \<notin> set (TrimPrefix (Path r) ''/'')"
  shows "route cm ks r = RouteNotFound"
proof -
  let ?host = "TrimPrefix (TrimPrefix (Host r) ''http://'') ''https://''"
  obtain f n ok where g: "GetDomainByFQDN cm ks ?host = (f, n, ok)"
    by (cases "GetDomainByFQDN cm ks ?host") auto
  show ?thesis
  proof (cases ok)
    case False
    with g show ?thesis by (simp add: route_def Let_def)
  next
    case True
    have reg: "\<not> (\<forall>g. domainFQDNs cm g \<noteq> Some ?host)"
      using GetDomainByFQDN_absent [of cm ?host ks] g True by auto
    show ?thesis
    proof (cases "CHR ''/'' \<in> set (TrimPrefix (Path r) ''/'')")
      case False
      then have "length (SplitN2 (TrimPrefix (Path r) ''/'')) < 2" by (rule SplitN2_short)
      with g True show ?thesis by (simp add: route_def Let_def)
    next
      case sl: True
      then have m: "Method r \<noteq> ''GET'' \<and> Method r \<noteq> ''HEAD'' \<and> Method r \<noteq> ''OPTIONS''"
        using assms reg by blast
      have "length (SplitN2 (TrimPrefix (Path r) ''/'')) = 2" using sl by (rule SplitN2_long)
      with g True m show ?thesis by (simp add: route_def Let_def)
    qed
  qed
qed

lemma serveNotFound_new:
  "status (serveNotFound new_response) = 404 \<and>
   header (serveNotFound new_response) ''Cache-Control'' = Some ''public, max-age=60''"
  by (simp add: serveNotFound_def http_NotFound_def new_response_def)

text \<open>
  C8. A request whose method is not GET, HEAD or OPTIONS, or whose host (after the
  handler strips a protocol prefix) is the stored host of no domain, or whose path has
  no second segment (no separator after the leading one), is answered by
  \<open>serveNotFound\<close>: status 404 with Cache-Control "public, max-age=60", not the one-year
  value of a served file.
\<close>

theorem unsupported_requests_not_found:
  assumes "(Method r \<noteq> ''GET'' \<and> Method r \<noteq> ''HEAD'' \<and> Method r \<noteq> ''OPTIONS'')
         \<or> (\<forall>g. domainFQDNs cm g \<noteq> Some (TrimPrefix (TrimPrefix (Host r) ''http://'') ''https://''))
         \<or> CHR ''/'' \<notin> set (TrimPrefix (Path r) ''/'')"
  shows "Handler lib s d cm ks r = serveNotFound new_response
       \<and> status (Handler lib s d cm ks r) = 404
       \<and> header (Handler lib s d cm ks r) ''Cache-Control'' = Some ''public, max-age=60''
       \<and> header (Handler lib s d cm ks r) ''Cache-Control''
           \<noteq> Some ''public, max-age=31536000, immutable''"
proof -
  have "route cm ks r = RouteNotFound" using assms by (rule route_not_found)
  then have h: "Handler lib s d cm ks r = serveNotFound new_response"
    by (simp add: Handler_def)
  show ?thesis unfolding h using serveNotFound_new by simp
qed

lemma demo_registry_maps:
  "domainFQDNs demo_registry = [''main'' \<mapsto> ''cdn.example.com'']"
  "domainDisplayNames demo_registry = [''main'' \<mapsto> ''Main CDN'']"
  "domains demo_registry = [''main'' \<mapsto> ''exists'']"
  by (simp_all add: demo_registry_def NewConfigManager_def AddDomain_def ReplaceAll_def
      stripProtocol_def TrimPrefix_def TrimSuffix_def Let_def)

theorem unsupported_requests_not_found_witness:
  "status (Handler demo_lib demo_storage demo_disk demo_registry [''main'']
      (demo_request ''POST'' ''cdn.example.com'' ''/img/a.png'')) = 404
   \<and> header (Handler demo_lib demo_storage demo_disk demo_registry [''main'']
      (demo_request ''POST'' ''cdn.example.com'' ''/img/a.png'')) ''Cache-Control''
       = Some ''public, max-age=60''
   \<and> status (Handler demo_lib demo_storage demo_disk demo_registry [''main'']
      (demo_request ''GET'' ''other.com'' ''/img/a.png'')) = 404
   \<and> status (Handler demo_lib demo_storage demo_disk demo_registry [''main'']
      (demo_request ''GET'' ''cdn.example.com'' ''/onlyonesegment'')) = 404"
proof -
  have a: "Method (demo_request ''POST'' ''cdn.example.com'' ''/img/a.png'') \<noteq> ''GET'' \<and>
           Method (demo_request ''POST'' ''cdn.example.com'' ''/img/a.png'') \<noteq> ''HEAD'' \<and>
           Method (demo_request ''POST'' ''cdn.example.com'' ''/img/a.png'') \<noteq> ''OPTIONS''"
    by (simp add: demo_request_def)
  have b: "\<forall>g. domainFQDNs demo_registry g \<noteq>
      Some (TrimPrefix (TrimPrefix (Host (demo_request ''GET'' ''other.com'' ''/img/a.png''))
        ''http://'') ''https://'')"
    by (simp add: demo_request_def demo_registry_maps TrimPrefix_def)
  have c: "CHR ''/'' \<notin> set (TrimPrefix
      (Path (demo_request ''GET'' ''cdn.example.com'' ''/onlyonesegment'')) ''/'')"
    by (simp add: demo_request_def TrimPrefix_def)
  note t1 = unsupported_requests_not_found [where r = "demo_request ''POST'' ''cdn.example.com'' ''/img/a.png''"
      and cm = demo_registry and lib = demo_lib and s = demo_storage and d = demo_disk
      and ks = "[''main'']", OF disjI1, OF a]
  note t2 = unsupported_requests_not_found [where r = "demo_request ''GET'' ''other.com'' ''/img/a.png''"
      and cm = demo_registry and lib = demo_lib and s = demo_storage and d = demo_disk
      and ks = "[''main'']", OF disjI2, OF disjI1, OF b]
  note t3 = unsupported_requests_not_found [where r = "demo_request ''GET'' ''cdn.example.com'' ''/onlyonesegment''"
      and cm = demo_registry and lib = demo_lib and s = demo_storage and d = demo_disk
      and ks = "[''main'']", OF disjI2, OF disjI2, OF c]
  from t1 t2 t3 show ?thesis by blast
qed

lemma length_EncodeToString: "length (EncodeToString bs) = 2 * length bs"
  by (induction bs) (simp_all add: EncodeToString_def)

lemma GetDomainByFQDN_match:
  "GetDomainByFQDN cm ks host = (f, d, True) \<Longrightarrow> domainFQDNs cm f = Some host"
  by (induction ks) (auto split: if_splits)

text \<open>
  C5. For a GET or HEAD request that the handler routes to a stored file with content
  \<open>B\<close>: the ETag is the hexadecimal encoding of the first 8 bytes of the SHA-256 digest
  of \<open>B\<close> between double quotes (16 digits and two quotes), a function of \<open>B\<close>; when
  the header If-None-Match equals it, the answer is 304 with no header and no body; for
  any other value (or no such header) the answer is 200 with the ETag, the content
  type, the one-year Cache-Control and the body \<open>B\<close> (no body for HEAD).
\<close>

theorem etag_conditional_get:
  assumes "route cm ks r = RouteGetFile domainFolder category filename"
    and "GetFile lib s d domainFolder category filename = Inr (Some (B, ct))"
  shows "GenerateETag lib B = CHR 0x22 # EncodeToString (take 8 (Sum256 lib B)) @ [CHR 0x22]
       \<and> (8 \<le> length (Sum256 lib B) \<longrightarrow> length (GenerateETag lib B) = 18)
       \<and> (index (Header r) ''If-None-Match'' = GenerateETag lib B \<longrightarrow>
            Handler lib s d cm ks r = \<lparr>header = Map.empty, status = 304, body = []\<rparr>)
       \<and> (index (Header r) ''If-None-Match'' \<noteq> GenerateETag lib B \<longrightarrow>
            status (Handler lib s d cm ks r) = 200
          \<and> body (Handler lib s d cm ks r) = (if Method r = ''HEAD'' then [] else B)
          \<and> header (Handler lib s d cm ks r) ''ETag'' = Some (GenerateETag lib B)
          \<and> header (Handler lib s d cm ks r) ''Content-Type'' = Some ct
          \<and> header (Handler lib s d cm ks r) ''Cache-Control''
               = Some ''public, max-age=31536000, immutable'')"
proof -
  have a: "GenerateETag lib B = CHR 0x22 # EncodeToString (take 8 (Sum256 lib B)) @ [CHR 0x22]"
    by (simp add: GenerateETag_def Let_def)
  have b: "8 \<le> length (Sum256 lib B) \<longrightarrow> length (GenerateETag lib B) = 18"
    by (simp add: a length_EncodeToString)
  have c: "index (Header r) ''If-None-Match'' = GenerateETag lib B \<longrightarrow>
            Handler lib s d cm ks r = \<lparr>header = Map.empty, status = 304, body = []\<rparr>"
    using assms by (simp add: Handler_def Let_def new_response_def)
  have e: "index (Header r) ''If-None-Match'' \<noteq> GenerateETag lib B \<longrightarrow>
            status (Handler lib s d cm ks r) = 200
          \<and> body (Handler lib s d cm ks r) = (if Method r = ''HEAD'' then [] else B)
          \<and> header (Handler lib s d cm ks r) ''ETag'' = Some (GenerateETag lib B)
          \<and> header (Handler lib s d cm ks r) ''Content-Type'' = Some ct
          \<and> header (Handler lib s d cm ks r) ''Cache-Control''
               = Some ''public, max-age=31536000, immutable''"
    using assms by (simp add: Handler_def Let_def new_response_def)
  from a b c e show ?thesis by (intro conjI)
qed

theorem etag_conditional_get_witness:
  "route demo_registry [''main''] (demo_request ''GET'' ''cdn.example.com'' ''/img/u1.txt'')
     = RouteGetFile ''main'' ''img'' ''u1.txt''
   \<and> GetFile demo_lib demo_storage (snd demo_stored) ''main'' ''img'' ''u1.txt''
     = Inr (Some (bytes ''hi'', ''text/plain; charset=utf-8''))
   \<and> GenerateETag demo_lib (bytes ''hi'') = CHR 0x22 # ''0202020202020202'' @ [CHR 0x22]
   \<and> status (Handler demo_lib demo_storage (snd demo_stored) demo_registry [''main'']
        (demo_request ''GET'' ''cdn.example.com'' ''/img/u1.txt'')) = 200
   \<and> body (Handler demo_lib demo_storage (snd demo_stored) demo_registry [''main'']
        (demo_request ''GET'' ''cdn.example.com'' ''/img/u1.txt'')) = bytes ''hi''
   \<and> Handler demo_lib demo_storage (snd demo_stored) demo_registry [''main'']
        ((demo_request ''GET'' ''cdn.example.com'' ''/img/u1.txt'')
           \<lparr>Header := [''If-None-Match'' \<mapsto> CHR 0x22 # ''0202020202020202'' @ [CHR 0x22]]\<rparr>)
     = \<lparr>header = Map.empty, status = 304, body = []\<rparr>"
proof -
  let ?r = "demo_request ''GET'' ''cdn.example.com'' ''/img/u1.txt''"
  let ?r' = "?r\<lparr>Header := [''If-None-Match'' \<mapsto> CHR 0x22 # ''0202020202020202'' @ [CHR 0x22]]\<rparr>"
  have r1: "route demo_registry [''main''] ?r = RouteGetFile ''main'' ''img'' ''u1.txt''"
    by code_simp
  have r2: "route demo_registry [''main''] ?r' = RouteGetFile ''main'' ''img'' ''u1.txt''"
    by code_simp
  have g: "GetFile demo_lib demo_storage (snd demo_stored) ''main'' ''img'' ''u1.txt''
     = Inr (Some (bytes ''hi'', ''text/plain; charset=utf-8''))"
    by code_simp
  have t: "GenerateETag demo_lib (bytes ''hi'') = CHR 0x22 # ''0202020202020202'' @ [CHR 0x22]"
    by code_simp
  have m: "Method ?r \<noteq> ''HEAD''" by (simp add: demo_request_def)
  have n1: "index (Header ?r) ''If-None-Match'' \<noteq> GenerateETag demo_lib (bytes ''hi'')"
    unfolding t by (simp add: demo_request_def index_def)
  have n2: "index (Header ?r') ''If-None-Match'' = GenerateETag demo_lib (bytes ''hi'')"
    unfolding t by (simp add: index_def)
  note t1 = etag_conditional_get [OF r1 g, THEN conjunct2, THEN conjunct2, THEN conjunct2,
      THEN mp, OF n1]
  note t2 = etag_conditional_get [OF r2 g, THEN conjunct2, THEN conjunct2, THEN conjunct1,
      THEN mp, OF n2]
  from t1 m have "status (Handler demo_lib demo_storage (snd demo_stored) demo_registry [''main''] ?r) = 200
    \<and> body (Handler demo_lib demo_storage (snd demo_stored) demo_registry [''main''] ?r) = bytes ''hi''"
    by simp
  with r1 g t t2 show ?thesis by (intro conjI) simp_all
qed

lemma TrimPrefix_slash: "TrimPrefix (CHR ''/'' # p) ''/'' = p"
  by (simp add: TrimPrefix_def)

text \<open>
  C2 (amended). The file name that the handler passes to \<open>GetFile\<close> is the whole rest of
  the request path after the first separator that follows the category (one leading
  separator removed): the category has no separator, the domain is one whose stored
  host is the request's host and the method is GET or HEAD; the file name itself is not
  checked, and every string is passed on as the file name by some request.
\<close>

theorem route_passes_rest_of_path:
  "(route cm ks r = RouteGetFile domainFolder category filename \<longrightarrow>
      CHR ''/'' \<notin> set category
    \<and> TrimPrefix (Path r) ''/'' = category @ CHR ''/'' # filename
    \<and> (Method r = ''GET'' \<or> Method r = ''HEAD'')
    \<and> domainFQDNs cm domainFolder
         = Some (TrimPrefix (TrimPrefix (Host r) ''http://'') ''https://''))
   \<and> (GetDomainByFQDN cm ks (TrimPrefix (TrimPrefix (Host r) ''http://'') ''https://'')
         = (domainFolder, displayName, True)
      \<and> (Method r = ''GET'' \<or> Method r = ''HEAD'')
      \<and> CHR ''/'' \<notin> set category
      \<and> Path r = CHR ''/'' # category @ CHR ''/'' # filename \<longrightarrow>
      route cm ks r = RouteGetFile domainFolder category filename)"
proof -
  let ?host = "TrimPrefix (TrimPrefix (Host r) ''http://'') ''https://''"
  let ?p = "TrimPrefix (Path r) ''/''"
  have a: "route cm ks r = RouteGetFile domainFolder category filename \<longrightarrow>
      CHR ''/'' \<notin> set category
    \<and> ?p = category @ CHR ''/'' # filename
    \<and> (Method r = ''GET'' \<or> Method r = ''HEAD'')
    \<and> domainFQDNs cm domainFolder = Some ?host"
  proof
    assume h: "route cm ks r = RouteGetFile domainFolder category filename"
    obtain f n ok where g: "GetDomainByFQDN cm ks ?host = (f, n, ok)"
      by (cases "GetDomainByFQDN cm ks ?host") auto
    have ok: ok using h g by (cases ok) (simp_all add: route_def Let_def)
    have sl: "CHR ''/'' \<in> set ?p"
    proof (rule ccontr)
      assume "CHR ''/'' \<notin> set ?p"
      then have "length (SplitN2 ?p) < 2" by (rule SplitN2_short)
      with h g ok show False by (simp add: route_def Let_def)
    qed
    then have len: "length (SplitN2 ?p) = 2" by (rule SplitN2_long)
    have res: "(Method r = ''GET'' \<or> Method r = ''HEAD'') \<and> f = domainFolder
        \<and> SplitN2 ?p ! 0 = category \<and> SplitN2 ?p ! 1 = filename"
      using h g ok len by (simp add: route_def Let_def split: if_splits)
    have "domainFQDNs cm f = Some ?host"
      using g ok by (intro GetDomainByFQDN_match [of cm ks ?host f n]) simp
    with res SplitN2_parts [OF sl] show "CHR ''/'' \<notin> set category
      \<and> ?p = category @ CHR ''/'' # filename
      \<and> (Method r = ''GET'' \<or> Method r = ''HEAD'')
      \<and> domainFQDNs cm domainFolder = Some ?host"
      by auto
  qed
  have b: "GetDomainByFQDN cm ks ?host = (domainFolder, displayName, True)
      \<and> (Method r = ''GET'' \<or> Method r = ''HEAD'')
      \<and> CHR ''/'' \<notin> set category
      \<and> Path r = CHR ''/'' # category @ CHR ''/'' # filename \<longrightarrow>
      route cm ks r = RouteGetFile domainFolder category filename"
  proof
    assume h: "GetDomainByFQDN cm ks ?host = (domainFolder, displayName, True)
      \<and> (Method r = ''GET'' \<or> Method r = ''HEAD'')
      \<and> CHR ''/'' \<notin> set category
      \<and> Path r = CHR ''/'' # category @ CHR ''/'' # filename"
    then have p: "?p = category @ CHR ''/'' # filename"
      by (simp add: TrimPrefix_slash)
    have sp: "SplitN2 ?p = [category, filename]"
      unfolding p using h by (intro SplitN2_cat) simp
    show "route cm ks r = RouteGetFile domainFolder category filename"
      using h sp by (auto simp add: route_def Let_def)
  qed
  from a b show ?thesis by (intro conjI)
qed

theorem route_passes_rest_of_path_witness:
  "route demo_registry [''main''] (demo_request ''GET'' ''cdn.example.com'' ''/img/u1.txt'')
     = RouteGetFile ''main'' ''img'' ''u1.txt''
   \<and> CHR ''/'' \<notin> set ''img''
   \<and> TrimPrefix (Path (demo_request ''GET'' ''cdn.example.com'' ''/img/u1.txt'')) ''/''
       = ''img'' @ CHR ''/'' # ''u1.txt''
   \<and> route demo_registry [''main''] (demo_request ''HEAD'' ''cdn.example.com'' ''/img/a/../b'')
     = RouteGetFile ''main'' ''img'' ''a/../b''"
proof -
  let ?r = "demo_request ''GET'' ''cdn.example.com'' ''/img/u1.txt''"
  let ?q = "demo_request ''HEAD'' ''cdn.example.com'' ''/img/a/../b''"
  have r1: "route demo_registry [''main''] ?r = RouteGetFile ''main'' ''img'' ''u1.txt''"
    by code_simp
  note t1 = route_passes_rest_of_path [where cm = demo_registry and ks = "[''main'']" and r = ?r
      and domainFolder = "''main''" and category = "''img''" and filename = "''u1.txt''",
      THEN conjunct1, THEN mp, OF r1]
  have pre: "GetDomainByFQDN demo_registry [''main'']
         (TrimPrefix (TrimPrefix (Host ?q) ''http://'') ''https://'')
         = (''main'', ''Main CDN'', True)
      \<and> (Method ?q = ''GET'' \<or> Method ?q = ''HEAD'')
      \<and> CHR ''/'' \<notin> set ''img''
      \<and> Path ?q = CHR ''/'' # ''img'' @ CHR ''/'' # ''a/../b''"
    by code_simp
  note t2 = route_passes_rest_of_path [where cm = demo_registry and ks = "[''main'']" and r = ?q
      and domainFolder = "''main''" and category = "''img''" and filename = "''a/../b''"
      and displayName = "''Main CDN''",
      THEN conjunct2, THEN mp, OF pre]
  from r1 t1 t2 show ?thesis by (intro conjI) simp_all
qed

text \<open>
  C2 as stated fails: for the path \<open>/img/../../../../etc/passwd\<close> the file name passed
  to \<open>GetFile\<close> has separators and \<open>..\<close> segments, \<open>filepath.Join\<close> turns it into
  \<open>/etc/passwd\<close>, outside the storage directory, and the handler serves that file.
\<close>

theorem filename_traversal_counterexample:
  "route demo_registry [''main'']
       (demo_request ''GET'' ''cdn.example.com'' ''/img/../../../../etc/passwd'')
     = RouteGetFile ''main'' ''img'' ''../../../../etc/passwd''
   \<and> CHR ''/'' \<in> set ''../../../../etc/passwd''
   \<and> ''..'' \<in> set (split_sep ''../../../../etc/passwd'')
   \<and> Join [basePath demo_storage, ''main'', ''img'', ''../../../../etc/passwd''] = ''/etc/passwd''
   \<and> status (Handler demo_lib demo_storage demo_disk demo_registry [''main'']
       (demo_request ''GET'' ''cdn.example.com'' ''/img/../../../../etc/passwd'')) = 200
   \<and> body (Handler demo_lib demo_storage demo_disk demo_registry [''main'']
       (demo_request ''GET'' ''cdn.example.com'' ''/img/../../../../etc/passwd'')) = bytes ''root''"
  by code_simp

section \<open>Blob store: theorems\<close>

subsection \<open>Listing\<close>

lemma mset_file_names_sort_key:
  "mset (file_names (sort_key fst es)) = mset (file_names es)"
  by (simp add: file_names_def)

lemma ListFiles_not_exist:
  assumes "stat_path d (Join [basePath s, domainFolder, category]) = Inl ENOENT"
  shows "ListFiles s d domainFolder category = Inr []"
  using assms by (simp add: ListFiles_def os_ReadDir_def Let_def)

lemma ListFiles_error:
  assumes "stat_path d (Join [basePath s, domainFolder, category]) = Inl e" and "e \<noteq> ENOENT"
  shows "ListFiles s d domainFolder category = Inl (FailedReadDirectory e)"
  using assms by (simp add: ListFiles_def os_ReadDir_def Let_def)

lemma ListFiles_file:
  assumes "stat_path d (Join [basePath s, domainFolder, category]) = Inr (File b)"
  shows "ListFiles s d domainFolder category = Inl (FailedReadDirectory ENOTDIR)"
  using assms by (simp add: ListFiles_def os_ReadDir_def Let_def)

lemma ListFiles_dir:
  assumes "stat_path d (Join [basePath s, domainFolder, category]) = Inr (Dir es)"
  shows "ListFiles s d domainFolder category = Inr (sort (file_names es))"
proof -
  have "ListFiles s d domainFolder category = Inr (sort (file_names (sort_key fst es)))"
    using assms by (simp add: ListFiles_def os_ReadDir_def Let_def file_names_def)
  moreover have "sort (file_names (sort_key fst es)) = sort (file_names es)"
    by (rule properties_for_sort) (simp_all add: mset_file_names_sort_key)
  ultimately show ?thesis by simp
qed

lemma mset_file_names: "mset es = mset es' \<Longrightarrow> mset (file_names es) = mset (file_names es')"
proof -
  assume h: "mset es = mset es'"
  have e: "mset (file_names xs) = image_mset fst (filter_mset (\<lambda>entry. \<not> IsDir (snd entry)) (mset xs))" for xs
    by (simp add: file_names_def)
  show ?thesis unfolding e h ..
qed

text \<open>
  C9 (amended). With \<open>p\<close> the joined path of the storage directory, the domain and the
  category: \<open>ListFiles\<close> returns the empty list, not an error, when the operating system
  reports that \<open>p\<close> does not exist (\<open>ENOENT\<close>). When \<open>p\<close> is a directory, \<open>ListFiles\<close>
  returns the names of exactly its entries that are not directories, each once, in
  ascending byte-wise lexicographic order; the result is the same for every file
  system whose directory holds the same entries in another order, so the order in
  which files were stored does not matter. In every other case there is no directory
  at \<open>p\<close> either, and \<open>ListFiles\<close> fails with "failed to read directory": when \<open>p\<close> is a
  regular file (\<open>ENOTDIR\<close>), and when the system reports any error other than \<open>ENOENT\<close>
  (a regular file on the way, a name that is too long or has a NUL byte).
\<close>

theorem ListFiles_sorted_files:
  "(stat_path d (Join [basePath s, domainFolder, category]) = Inl ENOENT \<longrightarrow>
      ListFiles s d domainFolder category = Inr [])
   \<and> (stat_path d (Join [basePath s, domainFolder, category]) = Inr (Dir es) \<longrightarrow>
      (\<exists>names. ListFiles s d domainFolder category = Inr names
         \<and> sorted names
         \<and> mset names = mset (map fst (filter (\<lambda>entry. \<not> IsDir (snd entry)) es))
         \<and> (\<forall>d' es'.
               stat_path d' (Join [basePath s, domainFolder, category]) = Inr (Dir es')
                 \<and> mset es' = mset es \<longrightarrow>
               ListFiles s d' domainFolder category = Inr names)))
   \<and> (stat_path d (Join [basePath s, domainFolder, category]) = Inr (File b) \<longrightarrow>
      ListFiles s d domainFolder category = Inl (FailedReadDirectory ENOTDIR))
   \<and> (stat_path d (Join [basePath s, domainFolder, category]) = Inl e \<and> e \<noteq> ENOENT \<longrightarrow>
      ListFiles s d domainFolder category = Inl (FailedReadDirectory e))"
proof -
  let ?p = "Join [basePath s, domainFolder, category]"
  have a: "stat_path d ?p = Inl ENOENT \<longrightarrow> ListFiles s d domainFolder category = Inr []"
    by (rule impI) (rule ListFiles_not_exist)
  have b: "stat_path d ?p = Inr (Dir es) \<longrightarrow>
      (\<exists>names. ListFiles s d domainFolder category = Inr names
         \<and> sorted names
         \<and> mset names = mset (map fst (filter (\<lambda>entry. \<not> IsDir (snd entry)) es))
         \<and> (\<forall>d' es'.
               stat_path d' ?p = Inr (Dir es') \<and> mset es' = mset es \<longrightarrow>
               ListFiles s d' domainFolder category = Inr names))"
  proof
    assume h: "stat_path d ?p = Inr (Dir es)"
    then have l: "ListFiles s d domainFolder category = Inr (sort (file_names es))"
      by (rule ListFiles_dir)
    have o: "ListFiles s d' domainFolder category = Inr (sort (file_names es))"
      if "stat_path d' ?p = Inr (Dir es') \<and> mset es' = mset es" for d' es'
    proof -
      have "ListFiles s d' domainFolder category = Inr (sort (file_names es'))"
        using that by (intro ListFiles_dir) simp
      moreover have "mset (file_names es') = mset (file_names es)"
        using that by (intro mset_file_names) simp
      then have "sort (file_names es') = sort (file_names es)"
        by (intro properties_for_sort) simp_all
      ultimately show ?thesis by simp
    qed
    have m: "mset (sort (file_names es)) = mset (map fst (filter (\<lambda>entry. \<not> IsDir (snd entry)) es))"
      by (simp add: file_names_def)
    have o': "\<forall>d' es'.
               stat_path d' ?p = Inr (Dir es') \<and> mset es' = mset es \<longrightarrow>
               ListFiles s d' domainFolder category = Inr (sort (file_names es))"
      using o by blast
    from l o' m show "\<exists>names. ListFiles s d domainFolder category = Inr names
         \<and> sorted names
         \<and> mset names = mset (map fst (filter (\<lambda>entry. \<not> IsDir (snd entry)) es))
         \<and> (\<forall>d' es'.
               stat_path d' ?p = Inr (Dir es') \<and> mset es' = mset es \<longrightarrow>
               ListFiles s d' domainFolder category = Inr names)"
      by (intro exI [of _ "sort (file_names es)"] conjI) simp_all
  qed
  have c: "stat_path d ?p = Inr (File b) \<longrightarrow>
      ListFiles s d domainFolder category = Inl (FailedReadDirectory ENOTDIR)"
    by (rule impI) (rule ListFiles_file)
  have e: "stat_path d ?p = Inl e \<and> e \<noteq> ENOENT \<longrightarrow>
      ListFiles s d domainFolder category = Inl (FailedReadDirectory e)"
  proof
    assume "stat_path d ?p = Inl e \<and> e \<noteq> ENOENT"
    then show "ListFiles s d domainFolder category = Inl (FailedReadDirectory e)"
      by (intro ListFiles_error) simp_all
  qed
  from a b c e show ?thesis by (intro conjI)
qed

theorem ListFiles_sorted_files_witness:
  "stat_path demo_disk (Join [basePath demo_storage, ''main'', ''img'']) = Inl ENOENT
   \<and> ListFiles demo_storage demo_disk ''main'' ''img'' = Inr []
   \<and> stat_path demo_listing_disk (Join [basePath demo_storage, ''main'', ''img''])
       = Inr (Dir [(''zz.txt'', File (bytes ''z'')),
                   (''sub'', Dir [(''inner.txt'', File [])]),
                   (''aa.txt'', File (bytes ''a'')),
                   (''Mm.txt'', File [])])
   \<and> ListFiles demo_storage demo_listing_disk ''main'' ''img''
       = Inr [''Mm.txt'', ''aa.txt'', ''zz.txt'']
   \<and> stat_path (snd demo_stored) (Join [basePath demo_storage, ''main'', ''img/u1.txt''])
       = Inr (File (bytes ''hi''))
   \<and> ListFiles demo_storage (snd demo_stored) ''main'' ''img/u1.txt''
       = Inl (FailedReadDirectory ENOTDIR)
   \<and> stat_path demo_disk (Join [basePath demo_storage, replicate 300 CHR ''a'', ''img''])
       = Inl ENAMETOOLONG
   \<and> ListFiles demo_storage demo_disk (replicate 300 CHR ''a'') ''img''
       = Inl (FailedReadDirectory ENAMETOOLONG)"
proof -
  let ?p = "Join [basePath demo_storage, ''main'', ''img'']"
  let ?es = "[(''zz.txt'', File (bytes ''z'')),
              (''sub'', Dir [(''inner.txt'', File [])]),
              (''aa.txt'', File (bytes ''a'')),
              (''Mm.txt'', File [])]"
  have a: "stat_path demo_disk ?p = Inl ENOENT"
    by code_simp
  have b: "stat_path demo_listing_disk ?p = Inr (Dir ?es)"
    by code_simp
  have c: "stat_path (snd demo_stored) (Join [basePath demo_storage, ''main'', ''img/u1.txt''])
       = Inr (File (bytes ''hi''))"
    by code_simp
  have e: "stat_path demo_disk (Join [basePath demo_storage, replicate 300 CHR ''a'', ''img''])
       = Inl ENAMETOOLONG"
    by code_simp
  have ne: "ENAMETOOLONG \<noteq> ENOENT" by simp
  note 1 = ListFiles_sorted_files [where s = demo_storage and d = demo_disk
        and domainFolder = "''main''" and category = "''img''", THEN conjunct1, THEN mp, OF a]
  note ex = ListFiles_sorted_files [where s = demo_storage and d = demo_listing_disk
        and domainFolder = "''main''" and category = "''img''" and es = ?es, THEN conjunct2,
        THEN conjunct1, THEN mp, OF b]
  note 3 = ListFiles_sorted_files [where s = demo_storage and d = "snd demo_stored"
        and domainFolder = "''main''" and category = "''img/u1.txt''",
        THEN conjunct2, THEN conjunct2, THEN conjunct1, THEN mp, OF c]
  note 4 = ListFiles_sorted_files [where s = demo_storage and d = demo_disk
        and domainFolder = "replicate 300 CHR ''a''" and category = "''img''",
        THEN conjunct2, THEN conjunct2, THEN conjunct2, THEN mp, OF conjI, OF e ne]
  from ex obtain names where
    all: "ListFiles demo_storage demo_listing_disk ''main'' ''img'' = Inr names
      \<and> sorted names
      \<and> mset names = mset (map fst (filter (\<lambda>entry. \<not> IsDir (snd entry)) ?es))
      \<and> (\<forall>d' es'.
            stat_path d' ?p = Inr (Dir es') \<and> mset es' = mset ?es \<longrightarrow>
            ListFiles demo_storage d' ''main'' ''img'' = Inr names)" ..
  note n = all [THEN conjunct1]
  note so = all [THEN conjunct2, THEN conjunct1]
  note ms = all [THEN conjunct2, THEN conjunct2, THEN conjunct1]
  have "sort (map fst (filter (\<lambda>entry. \<not> IsDir (snd entry)) ?es)) = names"
    using ms so by (rule properties_for_sort)
  moreover have "sort (map fst (filter (\<lambda>entry. \<not> IsDir (snd entry)) ?es))
      = [''Mm.txt'', ''aa.txt'', ''zz.txt'']"
    by code_simp
  ultimately have 2: "ListFiles demo_storage demo_listing_disk ''main'' ''img''
       = Inr [''Mm.txt'', ''aa.txt'', ''zz.txt'']"
    using n by simp
  from a 1 b 2 c 3 e 4 show ?thesis by (intro conjI)
qed

text \<open>
  C9 as stated fails: after a blob was stored, the category \<open>img/u1.txt\<close> names a
  regular file and the category \<open>img/u1.txt/x\<close> a path through it; no directory exists
  there, and \<open>ListFiles\<close> returns an error, not the empty list. The same holds for a
  domain whose name is too long for the file system or has a NUL byte.
\<close>

theorem ListFiles_not_directory_counterexample:
  "stat_path (snd demo_stored) (Join [basePath demo_storage, ''main'', ''img/u1.txt''])
       = Inr (File (bytes ''hi''))
   \<and> ListFiles demo_storage (snd demo_stored) ''main'' ''img/u1.txt''
       = Inl (FailedReadDirectory ENOTDIR)
   \<and> stat_path (snd demo_stored) (Join [basePath demo_storage, ''main'', ''img/u1.txt/x''])
       = Inl ENOTDIR
   \<and> ListFiles demo_storage (snd demo_stored) ''main'' ''img/u1.txt/x''
       = Inl (FailedReadDirectory ENOTDIR)
   \<and> ListFiles demo_storage demo_disk (replicate 300 CHR ''a'') ''img''
       = Inl (FailedReadDirectory ENAMETOOLONG)
   \<and> ListFiles demo_storage demo_disk [CHR ''a'', CHR 0x00] ''img''
       = Inl (FailedReadDirectory EINVAL)"
  by code_simp

subsection \<open>Paths\<close>

lemma split_sep_not_Nil: "split_sep s \<noteq> []"
  by (induction s) (auto split: list.splits)

lemma split_sep_append: "split_sep (a @ CHR ''/'' # b) = split_sep a @ split_sep b"
proof (induction a)
  case Nil
  show ?case by simp
next
  case (Cons c a)
  show ?case
  proof (cases "c = CHR ''/''")
    case True
    with Cons show ?thesis by simp
  next
    case False
    obtain w ws where s: "split_sep a = w # ws"
      using split_sep_not_Nil [of a] by (cases "split_sep a") auto
    with Cons False show ?thesis by simp
  qed
qed

lemma split_sep_plain: "CHR ''/'' \<notin> set e \<Longrightarrow> split_sep e = [e]"
  by (induction e) auto

lemma split_sep_elems: "e \<in> set (split_sep s) \<Longrightarrow> CHR ''/'' \<notin> set e"
proof (induction s arbitrary: e)
  case Nil
  then show ?case by simp
next
  case (Cons c s)
  obtain w ws where s: "split_sep s = w # ws"
    using split_sep_not_Nil [of s] by (cases "split_sep s") auto
  show ?case
  proof (cases "c = CHR ''/''")
    case True
    with Cons show ?thesis by auto
  next
    case False
    with Cons.prems s have "e = c # w \<or> e \<in> set ws" by simp
    then show ?thesis
    proof
      assume "e = c # w"
      moreover have "CHR ''/'' \<notin> set w" using Cons.IH [of w] s by simp
      ultimately show ?thesis using False by auto
    next
      assume "e \<in> set ws"
      then show ?thesis using Cons.IH [of e] s by simp
    qed
  qed
qed

lemma split_sep_join_sep:
  "es \<noteq> [] \<Longrightarrow> \<forall>e\<in>set es. CHR ''/'' \<notin> set e \<Longrightarrow> split_sep (join_sep es) = es"
proof (induction es rule: join_sep.induct)
  case 1
  then show ?case by simp
next
  case (2 e)
  then show ?case by (simp add: split_sep_plain)
next
  case (3 e v va)
  then show ?case by (simp add: split_sep_append split_sep_plain)
qed

lemma hd_join_sep: "e \<noteq> [] \<Longrightarrow> hd (join_sep (e # es)) = hd e"
  by (cases es) simp_all

lemma join_sep_snoc: "es \<noteq> [] \<Longrightarrow> join_sep (es @ [f]) = join_sep es @ CHR ''/'' # f"
  by (induction es rule: join_sep.induct) simp_all

lemma valid_out_elems:
  "valid_out r out \<Longrightarrow> e \<in> set out \<Longrightarrow> e \<noteq> [] \<and> CHR ''/'' \<notin> set e"
  by (induction out) auto

lemma valid_clean_elem:
  assumes "valid_out r out" and "CHR ''/'' \<notin> set e"
  shows "valid_out r (clean_elem r out e)"
proof (cases out)
  case Nil
  with assms show ?thesis by (simp add: clean_elem_def)
next
  case (Cons t rest)
  with assms show ?thesis by (auto simp add: clean_elem_def)
qed

lemma valid_foldl:
  "valid_out r out \<Longrightarrow> \<forall>e\<in>set es. CHR ''/'' \<notin> set e \<Longrightarrow>
     valid_out r (foldl (clean_elem r) out es)"
  by (induction es arbitrary: out) (simp_all add: valid_clean_elem)

lemma clean_elem_push:
  assumes "valid_out r (t # out)"
  shows "clean_elem r out t = t # out"
proof (cases "t = ''..''")
  case False
  with assms show ?thesis by (simp add: clean_elem_def)
next
  case True
  with assms have nr: "\<not> r" and dd: "\<forall>u\<in>set out. u = ''..''" by simp_all
  show ?thesis
  proof (cases out)
    case Nil
    with True nr show ?thesis by (simp add: clean_elem_def)
  next
    case (Cons u rest)
    with dd have "u = ''..''" by simp
    with True nr Cons show ?thesis by (simp add: clean_elem_def)
  qed
qed

lemma replay_out: "valid_out r out \<Longrightarrow> foldl (clean_elem r) [] (rev out) = out"
proof (induction out)
  case Nil
  show ?case by simp
next
  case (Cons t out)
  then have "foldl (clean_elem r) [] (rev out) = out" by simp
  then show ?case using clean_elem_push [OF Cons.prems] by simp
qed

lemma parse_join:
  assumes "valid_out r out"
  shows "foldl (clean_elem r) [] (split_sep (join_sep (rev out))) = out"
proof (cases "out = []")
  case True
  then show ?thesis by (simp add: clean_elem_def)
next
  case False
  have "\<forall>e\<in>set (rev out). CHR ''/'' \<notin> set e"
    using valid_out_elems [OF assms] by simp
  then have "split_sep (join_sep (rev out)) = rev out"
    using False by (intro split_sep_join_sep) simp_all
  then show ?thesis using replay_out [OF assms] by simp
qed

lemma parse_render:
  assumes "valid_out r out"
  shows "foldl (clean_elem r) [] (split_sep (render r out)) = out"
proof (cases r)
  case True
  have "foldl (clean_elem r) [] (split_sep (CHR ''/'' # join_sep (rev out)))
      = foldl (clean_elem r) (clean_elem r [] []) (split_sep (join_sep (rev out)))"
    by simp
  also have "clean_elem r [] [] = []" by (simp add: clean_elem_def)
  finally show ?thesis using True parse_join [OF assms] by (simp add: render_def)
next
  case False
  show ?thesis
  proof (cases "out = []")
    case True
    with False show ?thesis by (simp add: render_def clean_elem_def)
  next
    case ne: False
    with False show ?thesis using parse_join [OF assms] by (simp add: render_def)
  qed
qed

lemma render_rooted:
  assumes "valid_out r out"
  shows "render r out \<noteq> [] \<and> (hd (render r out) = CHR ''/'') = r"
proof (cases r)
  case True
  then show ?thesis by (simp add: render_def)
next
  case False
  show ?thesis
  proof (cases "rev out")
    case Nil
    with False show ?thesis by (simp add: render_def)
  next
    case (Cons e es)
    then have "e \<in> set out" by (metis list.set_intros(1) set_rev)
    then have e: "e \<noteq> [] \<and> CHR ''/'' \<notin> set e"
      using valid_out_elems [OF assms] by simp
    then have "hd e \<noteq> CHR ''/''" by (cases e) auto
    moreover have "join_sep (e # es) \<noteq> []" using e by (cases es) simp_all
    moreover have "out \<noteq> []" using Cons by auto
    ultimately show ?thesis
      using False Cons e by (simp add: render_def hd_join_sep)
  qed
qed

lemma valid_clean_state: "valid_out (hd path = CHR ''/'') (clean_state path)"
  unfolding clean_state_def
  by (rule valid_foldl) (simp_all add: split_sep_elems)

lemma Clean_render: "x \<noteq> [] \<Longrightarrow> Clean x = render (hd x = CHR ''/'') (clean_state x)"
  by (simp add: Clean_def clean_state_def)

lemma Clean_not_Nil: "Clean x \<noteq> []"
proof (cases "x = []")
  case True
  then show ?thesis by (simp add: Clean_def)
next
  case False
  then show ?thesis
    using render_rooted [OF valid_clean_state [of x]] by (simp add: Clean_render)
qed

lemma clean_state_append:
  assumes "x \<noteq> []"
  shows "clean_state (x @ CHR ''/'' # f)
       = foldl (clean_elem (hd x = CHR ''/'')) (clean_state x) (split_sep f)"
  using assms by (simp add: clean_state_def split_sep_append)

lemma Clean_Clean_append:
  assumes "x \<noteq> []"
  shows "Clean (Clean x @ CHR ''/'' # f) = Clean (x @ CHR ''/'' # f)"
proof -
  let ?r = "hd x = CHR ''/''"
  let ?c = "Clean x"
  have v: "valid_out ?r (clean_state x)" by (rule valid_clean_state)
  have c: "?c = render ?r (clean_state x)" using assms by (rule Clean_render)
  have cn: "?c \<noteq> []" by (rule Clean_not_Nil)
  have cr: "(hd ?c = CHR ''/'') = ?r" unfolding c using render_rooted [OF v] by simp
  have st: "clean_state ?c = clean_state x"
  proof -
    have "clean_state ?c = foldl (clean_elem (hd ?c = CHR ''/'')) [] (split_sep ?c)"
      by (simp only: clean_state_def)
    also have "\<dots> = foldl (clean_elem ?r) [] (split_sep ?c)"
      by (simp only: cr)
    also have "\<dots> = foldl (clean_elem ?r) [] (split_sep (render ?r (clean_state x)))"
      by (simp only: c [symmetric])
    also have "\<dots> = clean_state x"
      by (rule parse_render [OF v])
    finally show ?thesis .
  qed
  have "clean_state (?c @ CHR ''/'' # f)
       = foldl (clean_elem (hd ?c = CHR ''/'')) (clean_state ?c) (split_sep f)"
    using cn by (rule clean_state_append)
  also have "\<dots> = foldl (clean_elem ?r) (clean_state x) (split_sep f)"
    by (simp only: cr st)
  also have "\<dots> = clean_state (x @ CHR ''/'' # f)"
    using assms by (rule clean_state_append [symmetric])
  finally have s: "clean_state (?c @ CHR ''/'' # f) = clean_state (x @ CHR ''/'' # f)" .
  have h: "(hd (?c @ CHR ''/'' # f) = CHR ''/'') = (hd (x @ CHR ''/'' # f) = CHR ''/'')"
    using cn assms cr by simp
  have "Clean (?c @ CHR ''/'' # f)
      = render (hd (?c @ CHR ''/'' # f) = CHR ''/'') (clean_state (?c @ CHR ''/'' # f))"
    by (rule Clean_render) simp
  also have "\<dots> = render (hd (x @ CHR ''/'' # f) = CHR ''/'') (clean_state (x @ CHR ''/'' # f))"
    by (simp only: h s)
  also have "\<dots> = Clean (x @ CHR ''/'' # f)"
    by (rule Clean_render [symmetric]) simp
  finally show ?thesis .
qed

subsection \<open>Store and get\<close>

lemma join_sep_not_Nil: "e \<noteq> [] \<Longrightarrow> join_sep (e # es) \<noteq> []"
  by (cases es) simp_all

lemma Join_Join:
  assumes "Join [b, d, c] \<noteq> []"
  shows "Join [Join [b, d, c], f] = Join [b, d, c, f]"
proof -
  let ?P = "\<lambda>e::string. e = []"
  obtain e es where es: "dropWhile ?P [b, d, c] = e # es"
    using assms by (cases "dropWhile ?P [b, d, c]") (simp_all add: Join_def)
  have e: "e \<noteq> []"
    using hd_dropWhile [of ?P "[b, d, c]"] es by (metis list.distinct(1) list.sel(1))
  let ?X = "join_sep (e # es)"
  have X: "?X \<noteq> []" using e by (rule join_sep_not_Nil)
  have j: "Join [b, d, c] = Clean ?X" using es by (simp add: Join_def)
  have "e \<in> set (dropWhile ?P [b, d, c])" unfolding es by simp
  then have "e \<in> set [b, d, c]" by (rule set_dropWhileD)
  then have "dropWhile ?P ([b, d, c] @ [f]) = dropWhile ?P [b, d, c] @ [f]"
    using e by (rule dropWhile_append1)
  then have dw: "dropWhile ?P [b, d, c, f] = e # (es @ [f])" using es by simp
  have "Join [b, d, c, f] = Clean (join_sep ((e # es) @ [f]))"
    using dw by (simp add: Join_def)
  also have "join_sep ((e # es) @ [f]) = ?X @ CHR ''/'' # f"
    by (rule join_sep_snoc) simp
  finally have r: "Join [b, d, c, f] = Clean (?X @ CHR ''/'' # f)" .
  have "Join [Clean ?X, f] = Clean (Clean ?X @ CHR ''/'' # f)"
    using Clean_not_Nil [of ?X] by (simp add: Join_def)
  also have "\<dots> = Clean (?X @ CHR ''/'' # f)"
    using X by (rule Clean_Clean_append)
  finally show ?thesis using j r by simp
qed

lemma lookup_write_at: "write_at n p b = Inr n' \<Longrightarrow> lookup n' p = Inr (File b)"
proof (induction n p b arbitrary: n' rule: write_at.induct)
  case (1 old b)
  then show ?case by auto
next
  case (2 es b)
  then show ?case by simp
next
  case (3 old c cs b)
  then show ?case by simp
next
  case (4 es c cs b)
  have ok: "name_error c = None"
    using "4.prems" by (cases "name_error c") simp_all
  show ?case
  proof (cases "map_of es c")
    case None
    with "4.prems" ok have cs: "cs = []" and n': "n' = Dir (es @ [(c, File b)])"
      by (auto split: if_splits)
    have "map_of (es @ [(c, File b)]) c = Some (File b)"
      using None by (simp add: map_add_def)
    then show ?thesis using cs n' ok by simp
  next
    case (Some m)
    with "4.prems" ok obtain m' where w: "write_at m cs b = Inr m'"
      and n': "n' = Dir (AList.update c m' es)"
      by (auto split: sum.splits)
    have "lookup m' cs = Inr (File b)" using "4.IH" [OF ok Some w] .
    moreover have "map_of (AList.update c m' es) c = Some m'"
      by (simp add: update_conv')
    ultimately show ?thesis using n' ok by simp
  qed
qed

text \<open>
  C3. Round trip: when \<open>StoreFile\<close> succeeds for a domain, a category, bytes \<open>B\<close>, a
  content type and an extension, it returns the generated identifier followed by the
  extension and the length of \<open>B\<close>, and \<open>GetFile\<close> for the same domain and category and
  the returned file name, on the file system that \<open>StoreFile\<close> left, returns exactly
  \<open>B\<close> (with the content type found from the extension or, failing that, from the
  bytes).
\<close>

theorem StoreFile_GetFile_roundtrip:
  assumes "StoreFile s d uuid domainFolder category B contentType E = (Inr (f, n), d')"
  shows "f = uuid @ E \<and> n = length B
       \<and> GetFile lib s d' domainFolder category f
           = Inr (Some (B, if TypeByExtension lib (Ext f) = [] then DetectContentType lib B
                           else TypeByExtension lib (Ext f)))"
proof -
  let ?dir = "Join [basePath s, domainFolder, category]"
  let ?fp = "Join [?dir, uuid @ E]"
  obtain d1 where m: "os_MkdirAll d ?dir = (None, d1)"
    using assms
    by (cases "os_MkdirAll d ?dir") (auto simp add: StoreFile_def Let_def split: option.splits)
  have w: "os_WriteFile d1 ?fp B = (None, d')" and f: "f = uuid @ E" and n: "n = length B"
    using assms m
    by (cases "os_WriteFile d1 ?fp B"; auto simp add: StoreFile_def Let_def split: option.splits)+
  have dir: "?dir \<noteq> []"
    using m by (auto simp add: os_MkdirAll_def path_error_def)
  have fp: "path_error ?fp = None"
    using w by (cases "path_error ?fp") (simp_all add: os_WriteFile_def)
  obtain r where wr: "write_at (root d1) (resolve (cwd d1) ?fp) B = Inr r"
    and d': "d' = d1\<lparr>root := r\<rparr>"
    using w fp by (auto simp add: os_WriteFile_def split: sum.splits)
  have lk: "lookup (root d') (resolve (cwd d') ?fp) = Inr (File B)"
    using lookup_write_at [OF wr] d' by simp
  have same: "Join [basePath s, domainFolder, category, f] = ?fp"
    unfolding f using Join_Join [OF dir] by simp
  have "os_ReadFile d' ?fp = Inr B"
    using lk fp by (simp add: os_ReadFile_def stat_path_def)
  then have "GetFile lib s d' domainFolder category f
           = Inr (Some (B, if TypeByExtension lib (Ext f) = [] then DetectContentType lib B
                           else TypeByExtension lib (Ext f)))"
    by (simp add: GetFile_def same Let_def)
  with f n show ?thesis by simp
qed

theorem StoreFile_GetFile_roundtrip_witness:
  "StoreFile demo_storage demo_disk ''u1'' ''main'' ''img'' (bytes ''hi'') ''text/plain'' ''.txt''
     = (Inr (''u1.txt'', 2), snd demo_stored)
   \<and> GetFile demo_lib demo_storage (snd demo_stored) ''main'' ''img'' ''u1.txt''
     = Inr (Some (bytes ''hi'', ''text/plain; charset=utf-8''))
   \<and> fst (StoreFile demo_storage demo_disk ''u2'' ''main'' ''img'' (bytes ''png'') ''image/png''
          ''/../logo.png'') = Inr (''u2/../logo.png'', 3)
   \<and> GetFile demo_lib demo_storage
        (snd (StoreFile demo_storage demo_disk ''u2'' ''main'' ''img'' (bytes ''png'') ''image/png''
          ''/../logo.png'')) ''main'' ''img'' ''u2/../logo.png''
     = Inr (Some (bytes ''png'', ''application/octet-stream''))"
proof -
  let ?st2 = "StoreFile demo_storage demo_disk ''u2'' ''main'' ''img'' (bytes ''png'') ''image/png''
          ''/../logo.png''"
  have st: "StoreFile demo_storage demo_disk ''u1'' ''main'' ''img'' (bytes ''hi'') ''text/plain''
      ''.txt'' = (Inr (''u1.txt'', 2), snd demo_stored)"
    by code_simp
  have st2: "?st2 = (Inr (''u2/../logo.png'', 3), snd ?st2)"
    by code_simp
  have ct: "(if TypeByExtension demo_lib (Ext ''u1.txt'') = []
             then DetectContentType demo_lib (bytes ''hi'')
             else TypeByExtension demo_lib (Ext ''u1.txt'')) = ''text/plain; charset=utf-8''"
    by code_simp
  have ct2: "(if TypeByExtension demo_lib (Ext ''u2/../logo.png'') = []
             then DetectContentType demo_lib (bytes ''png'')
             else TypeByExtension demo_lib (Ext ''u2/../logo.png'')) = ''application/octet-stream''"
    by code_simp
  note g = StoreFile_GetFile_roundtrip [OF st, of demo_lib, THEN conjunct2, THEN conjunct2]
  note g2 = StoreFile_GetFile_roundtrip [OF st2, of demo_lib, THEN conjunct2, THEN conjunct2]
  have f2: "fst ?st2 = Inr (''u2/../logo.png'', 3)"
    by (subst st2) simp
  from st g [unfolded ct] f2 g2 [unfolded ct2] show ?thesis by (intro conjI)
qed

end
